theory Spec2Isabelle
  imports Complex_Main "HOL-Library.AList"
begin

section \<open>Python and numpy preliminaries\<close>

text \<open>
  Floating-point numbers of the source are modelled as exact reals: no rounding, no
  infinities, no NaN. Every exception the modelled code can raise is a value of
  \<open>error\<close>; a function that can raise returns \<open>error + 'a\<close> with \<open>Inl\<close> for the
  exception. \<open>NotANumber\<close> is not a Python exception: it marks the one place
  (division by a fingerprint length of zero in numpy) where the source continues with
  a NaN the model cannot represent.
\<close>

datatype error = IndexError | KeyError | ValueError | ZeroDivisionError | NotANumber

text \<open>\<open>int(x)\<close> on a float truncates towards zero.\<close>

definition py_int :: "real \<Rightarrow> int" where
  "py_int x = (if 0 \<le> x then \<lfloor>x\<rfloor> else \<lceil>x\<rceil>)"

text \<open>\<open>range(a, b)\<close>: the integers from \<open>a\<close> up to but excluding \<open>b\<close>, empty when \<open>b \<le> a\<close>.\<close>

definition py_range :: "int \<Rightarrow> int \<Rightarrow> int list" where
  "py_range a b = map (\<lambda>d. a + int d) [0..<nat (b - a)]"

text \<open>
  Indexing a Python list or one axis of a numpy array with an integer: a negative index
  counts from the end, anything outside \<open>[-n, n)\<close> raises IndexError.
\<close>

definition py_index :: "'a list \<Rightarrow> int \<Rightarrow> error + 'a" where
  "py_index xs i =
     (if 0 \<le> i \<and> i < int (length xs) then Inr (xs ! nat i)
      else if - int (length xs) \<le> i \<and> i < 0 then Inr (xs ! nat (int (length xs) + i))
      else Inl IndexError)"

text \<open>
  A two-dimensional numpy array is a list of rows; \<open>similarity_matrix[a, b]\<close> indexes
  axis 0 and then axis 1.
\<close>

type_synonym matrix = "real list list"

definition mat_get :: "matrix \<Rightarrow> int \<Rightarrow> int \<Rightarrow> error + real" where
  "mat_get m a b =
     (case py_index m a of Inl e \<Rightarrow> Inl e | Inr row \<Rightarrow> py_index row b)"

text \<open>\<open>similarity_matrix[a, b] = v\<close> with non-negative indices, as the builder uses it.\<close>

definition mat_set :: "matrix \<Rightarrow> nat \<Rightarrow> nat \<Rightarrow> real \<Rightarrow> error + matrix" where
  "mat_set m a b v =
     (if a < length m \<and> b < length (m ! a) then Inr (m[a := (m ! a)[b := v]])
      else Inl IndexError)"

text \<open>\<open>np.mean\<close> of a list of numbers (the source never calls it on an empty list).\<close>

definition np_mean :: "real list \<Rightarrow> real" where
  "np_mean xs = sum_list xs / real (length xs)"

section \<open>Video decoding and the fingerprint timeline\<close>

type_synonym fingerprint = "bool list"

text \<open>
  The decoding capability is external. A video is what \<open>cv2.VideoCapture\<close> reports about
  it: the FPS and frame-count properties, and for every frame number either no frame
  (\<open>cap.read()\<close> fails) or a frame. A frame is represented by the bit vector that
  \<open>get_frame_fingerprint\<close> derives from it, the only thing the detector uses of a frame.
\<close>

record video =
  fps_prop :: real
  frame_count_prop :: real
  read_frame :: "int \<Rightarrow> fingerprint option"

record video_processor =
  vp_video :: video
  vp_fps :: real
  vp_frame_count :: int
  vp_duration :: real

text \<open>\<open>VideoProcessor.__init__\<close>: \<open>frame_count / fps\<close> raises when the FPS is zero.\<close>

definition VideoProcessor_init :: "video \<Rightarrow> error + video_processor" where
  "VideoProcessor_init v =
     (let fps = fps_prop v; frame_count = py_int (frame_count_prop v)
      in if fps = 0 then Inl ZeroDivisionError
         else Inr \<lparr>vp_video = v, vp_fps = fps, vp_frame_count = frame_count,
                   vp_duration = real_of_int frame_count / fps\<rparr>)"

definition extract_frame :: "video_processor \<Rightarrow> real \<Rightarrow> fingerprint option" where
  "extract_frame vp time_point = read_frame (vp_video vp) (py_int (time_point * vp_fps vp))"

definition get_frame_fingerprint :: "fingerprint \<Rightarrow> fingerprint" where
  "get_frame_fingerprint frame = frame"

text \<open>\<open>detect_intro\<close> builds its extractor with the default sampling rate.\<close>

definition sampling_rate :: real where
  "sampling_rate = 1 / 2"

text \<open>
  \<open>extract_fingerprints\<close>: the while loop over \<open>current_time\<close>; the dictionary is an
  association list in insertion order.
\<close>

function extract_loop ::
  "video_processor \<Rightarrow> real \<Rightarrow> (real \<times> fingerprint) list \<Rightarrow> (real \<times> fingerprint) list" where
  "extract_loop vp current_time fingerprints =
     (if current_time < vp_duration vp
      then extract_loop vp (current_time + 1 / sampling_rate)
             (case extract_frame vp current_time of
                None \<Rightarrow> fingerprints
              | Some frame \<Rightarrow> AList.update current_time (get_frame_fingerprint frame) fingerprints)
      else fingerprints)"
  by pat_completeness auto
termination
proof (relation "measure (\<lambda>(vp, t, _). nat \<lceil>vp_duration vp - t\<rceil>)")
  show "wf (measure (\<lambda>(vp, t, _). nat \<lceil>vp_duration vp - t\<rceil>))"
    by simp
next
  fix vp :: video_processor and current_time :: real
    and fingerprints :: "(real \<times> fingerprint) list"
  assume lt: "current_time < vp_duration vp"
  have "\<lceil>vp_duration vp - (current_time + 2)\<rceil> = \<lceil>vp_duration vp - current_time\<rceil> - 2"
    by (simp add: diff_diff_eq [symmetric])
  moreover have "0 < \<lceil>vp_duration vp - current_time\<rceil>"
    using lt by simp
  ultimately show "((vp, current_time + 1 / sampling_rate,
            case extract_frame vp current_time of None \<Rightarrow> fingerprints
            | Some frame \<Rightarrow> AList.update current_time (get_frame_fingerprint frame) fingerprints),
           vp, current_time, fingerprints)
          \<in> measure (\<lambda>(vp, t, _). nat \<lceil>vp_duration vp - t\<rceil>)"
    by (simp add: sampling_rate_def)
qed

declare extract_loop.simps [simp del]

definition extract_fingerprints :: "video_processor \<Rightarrow> (real \<times> fingerprint) list" where
  "extract_fingerprints vp = extract_loop vp 0 []"

section \<open>The similarity matrix\<close>

text \<open>
  \<open>fp1 != fp2\<close> on two one-dimensional numpy arrays: elementwise when the lengths agree,
  broadcast when one of them has length one, ValueError otherwise.
\<close>

definition np_not_equal :: "fingerprint \<Rightarrow> fingerprint \<Rightarrow> error + bool list" where
  "np_not_equal fp1 fp2 =
     (if length fp1 = length fp2 then Inr (map (\<lambda>(a, b). a \<noteq> b) (zip fp1 fp2))
      else if length fp1 = 1 then Inr (map (\<lambda>b. hd fp1 \<noteq> b) fp2)
      else if length fp2 = 1 then Inr (map (\<lambda>a. a \<noteq> hd fp2) fp1)
      else Inl ValueError)"

text \<open>\<open>np.sum\<close> of a boolean array counts the true entries.\<close>

definition np_sum :: "bool list \<Rightarrow> nat" where
  "np_sum bs = length (filter (\<lambda>b. b) bs)"

text \<open>Lines 62-63: the Hamming distance turned into a similarity.\<close>

definition similarity :: "fingerprint \<Rightarrow> fingerprint \<Rightarrow> error + real" where
  "similarity fp1 fp2 =
     (case np_not_equal fp1 fp2 of
        Inl e \<Rightarrow> Inl e
      | Inr ne \<Rightarrow>
          if length fp1 = 0 then Inl NotANumber
          else Inr (1 - real (np_sum ne) / real (length fp1)))"

definition dict_get :: "('k \<times> 'v) list \<Rightarrow> 'k \<Rightarrow> error + 'v" where
  "dict_get d k = (case map_of d k of None \<Rightarrow> Inl KeyError | Some v \<Rightarrow> Inr v)"

text \<open>The body of the inner loop of \<open>compute_similarity_matrix\<close> (lines 59-65).\<close>

definition fill_cell ::
  "(real \<times> fingerprint) list \<Rightarrow> real list \<Rightarrow> nat \<Rightarrow> nat \<Rightarrow> matrix \<Rightarrow> error + matrix" where
  "fill_cell fingerprints times' i j m =
     (case dict_get fingerprints (times' ! i) of
        Inl e \<Rightarrow> Inl e
      | Inr fp1 \<Rightarrow>
     (case dict_get fingerprints (times' ! j) of
        Inl e \<Rightarrow> Inl e
      | Inr fp2 \<Rightarrow>
     (case similarity fp1 fp2 of
        Inl e \<Rightarrow> Inl e
      | Inr s \<Rightarrow>
     (case mat_set m i j s of
        Inl e \<Rightarrow> Inl e
      | Inr m' \<Rightarrow> mat_set m' j i s))))"

fun fill_row ::
  "(real \<times> fingerprint) list \<Rightarrow> real list \<Rightarrow> nat \<Rightarrow> nat list \<Rightarrow> matrix \<Rightarrow> error + matrix" where
  "fill_row fingerprints times' i [] m = Inr m"
| "fill_row fingerprints times' i (j # js) m =
     (case fill_cell fingerprints times' i j m of
        Inl e \<Rightarrow> Inl e
      | Inr m' \<Rightarrow> fill_row fingerprints times' i js m')"

fun fill_rows ::
  "(real \<times> fingerprint) list \<Rightarrow> real list \<Rightarrow> nat \<Rightarrow> nat list \<Rightarrow> matrix \<Rightarrow> error + matrix" where
  "fill_rows fingerprints times' n [] m = Inr m"
| "fill_rows fingerprints times' n (i # is) m =
     (case fill_row fingerprints times' i [i..<n] m of
        Inl e \<Rightarrow> Inl e
      | Inr m' \<Rightarrow> fill_rows fingerprints times' n is m')"

definition compute_similarity_matrix ::
  "(real \<times> fingerprint) list \<Rightarrow> error + (matrix \<times> real list)" where
  "compute_similarity_matrix fingerprints =
     (let times' = sort (map fst fingerprints);
          n = length times'
      in case fill_rows fingerprints times' n [0..<n] (replicate n (replicate n 0)) of
           Inl e \<Rightarrow> Inl e
         | Inr similarity_matrix \<Rightarrow> Inr (similarity_matrix, times'))"

section \<open>The candidate search\<close>

record config =
  min_intro_length :: real
  max_intro_length :: real
  similarity_threshold :: real

record candidate =
  start_time :: real
  end_time :: real
  duration :: real
  similarity_score :: real

text \<open>The list comprehension of line 48: the cells \<open>(i+k, j+k)\<close> for the given \<open>k\<close>.\<close>

fun diagonal_cells :: "matrix \<Rightarrow> int \<Rightarrow> int \<Rightarrow> int list \<Rightarrow> error + real list" where
  "diagonal_cells m i j [] = Inr []"
| "diagonal_cells m i j (k # ks) =
     (case mat_get m (i + k) (j + k) of
        Inl e \<Rightarrow> Inl e
      | Inr v \<Rightarrow>
          (case diagonal_cells m i j ks of
             Inl e \<Rightarrow> Inl e
           | Inr vs \<Rightarrow> Inr (v # vs)))"

text \<open>
  The extension loop of lines 54-58: \<open>end_offset\<close> is overwritten while the cell is
  above the threshold, and the loop breaks at the first cell that is not.
\<close>

fun extend_match :: "matrix \<Rightarrow> real \<Rightarrow> int \<Rightarrow> int \<Rightarrow> int list \<Rightarrow> int \<Rightarrow> error + int" where
  "extend_match m thr i j [] end_offset = Inr end_offset"
| "extend_match m thr i j (k # ks) end_offset =
     (case mat_get m (i + k) (j + k) of
        Inl e \<Rightarrow> Inl e
      | Inr v \<Rightarrow> if v > thr then extend_match m thr i j ks k else Inr end_offset)"

text \<open>Line 43: whether the pair is skipped because it spans more than the maximum.\<close>

definition too_long :: "config \<Rightarrow> real list \<Rightarrow> int \<Rightarrow> int \<Rightarrow> error + bool" where
  "too_long cfg times' i j =
     (case py_index times' j of
        Inl e \<Rightarrow> Inl e
      | Inr tj \<Rightarrow>
     (case py_index times' i of
        Inl e \<Rightarrow> Inl e
      | Inr ti \<Rightarrow> Inr (tj - ti > max_intro_length cfg)))"

text \<open>Lines 47-67 for one pair: the candidates this pair appends (none or one).\<close>

definition probe_pair ::
  "config \<Rightarrow> matrix \<Rightarrow> real list \<Rightarrow> int \<Rightarrow> int \<Rightarrow> error + candidate list" where
  "probe_pair cfg similarity_matrix times' i j =
     (let n = int (length times') in
      case diagonal_cells similarity_matrix i j (py_range 0 (min 20 (n - j))) of
        Inl e \<Rightarrow> Inl e
      | Inr cells \<Rightarrow>
          let sequence_similarity = np_mean cells in
          if sequence_similarity > similarity_threshold cfg then
            (case extend_match similarity_matrix (similarity_threshold cfg) i j
                    (py_range 0 (min (py_int (max_intro_length cfg)) (n - j))) 0 of
               Inl e \<Rightarrow> Inl e
             | Inr end_offset \<Rightarrow>
            (case py_index times' (i + end_offset) of
               Inl e \<Rightarrow> Inl e
             | Inr te \<Rightarrow>
            (case py_index times' i of
               Inl e \<Rightarrow> Inl e
             | Inr ti \<Rightarrow>
                 let duration = te - ti in
                 if min_intro_length cfg \<le> duration \<and> duration \<le> max_intro_length cfg
                 then Inr [\<lparr>start_time = ti, end_time = te, duration = duration,
                            similarity_score = sequence_similarity\<rparr>]
                 else Inr [])))
          else Inr [])"

text \<open>The body of the inner loop (lines 42-67).\<close>

definition pair_step ::
  "config \<Rightarrow> matrix \<Rightarrow> real list \<Rightarrow> int \<Rightarrow> int \<Rightarrow> candidate list \<Rightarrow> error + candidate list" where
  "pair_step cfg similarity_matrix times' i j candidates =
     (case too_long cfg times' i j of
        Inl e \<Rightarrow> Inl e
      | Inr skip \<Rightarrow>
          if skip then Inr candidates
          else (case probe_pair cfg similarity_matrix times' i j of
                  Inl e \<Rightarrow> Inl e
                | Inr new \<Rightarrow> Inr (candidates @ new)))"

fun inner_loop ::
  "config \<Rightarrow> matrix \<Rightarrow> real list \<Rightarrow> int \<Rightarrow> int list \<Rightarrow> candidate list \<Rightarrow> error + candidate list" where
  "inner_loop cfg m times' i [] candidates = Inr candidates"
| "inner_loop cfg m times' i (j # js) candidates =
     (case pair_step cfg m times' i j candidates of
        Inl e \<Rightarrow> Inl e
      | Inr candidates' \<Rightarrow> inner_loop cfg m times' i js candidates')"

fun outer_loop ::
  "config \<Rightarrow> matrix \<Rightarrow> real list \<Rightarrow> int list \<Rightarrow> candidate list \<Rightarrow> error + candidate list" where
  "outer_loop cfg m times' [] candidates = Inr candidates"
| "outer_loop cfg m times' (i # is) candidates =
     (case inner_loop cfg m times' i
             (py_range (i + py_int (min_intro_length cfg)) (int (length times'))) candidates of
        Inl e \<Rightarrow> Inl e
      | Inr candidates' \<Rightarrow> outer_loop cfg m times' is candidates')"

text \<open>Lines 36-67: the candidates in order of discovery.\<close>

definition collect_candidates :: "config \<Rightarrow> matrix \<Rightarrow> real list \<Rightarrow> error + candidate list" where
  "collect_candidates cfg m times' = outer_loop cfg m times' (py_range 0 (int (length times'))) []"

text \<open>Lines 78-79: the overlap test between a candidate and an accepted one.\<close>

definition overlaps :: "candidate \<Rightarrow> candidate \<Rightarrow> bool" where
  "overlaps c fc \<longleftrightarrow> start_time c < end_time fc \<and> end_time c > start_time fc"

text \<open>Lines 73-88: the greedy filter with its cap of five.\<close>

fun remove_overlapping :: "candidate list \<Rightarrow> candidate list \<Rightarrow> candidate list" where
  "remove_overlapping [] filtered_candidates = filtered_candidates"
| "remove_overlapping (c # cs) filtered_candidates =
     (if (\<exists>fc \<in> set filtered_candidates. overlaps c fc)
      then remove_overlapping cs filtered_candidates
      else if length (filtered_candidates @ [c]) \<ge> 5 then filtered_candidates @ [c]
      else remove_overlapping cs (filtered_candidates @ [c]))"

text \<open>
  Line 70: a stable sort, descending by score (\<open>sort_key\<close> is a stable insertion sort,
  so sorting by the negated score keeps the discovery order among equal scores, as
  Python's \<open>sort(reverse=True)\<close> does).
\<close>

definition rank_candidates :: "candidate list \<Rightarrow> candidate list" where
  "rank_candidates cs = sort_key (\<lambda>x. - similarity_score x) cs"

definition find_intro_candidates ::
  "config \<Rightarrow> matrix \<Rightarrow> real list \<Rightarrow> error + candidate list" where
  "find_intro_candidates cfg similarity_matrix times' =
     (case collect_candidates cfg similarity_matrix times' of
        Inl e \<Rightarrow> Inl e
      | Inr candidates \<Rightarrow> Inr (remove_overlapping (rank_candidates candidates) []))"

section \<open>Detection of one video and of a directory\<close>

datatype detection_result =
  NotFound
  | Found (res_start_time: real) (res_end_time: real) (res_duration: real) (confidence: real)

text \<open>
  \<open>detect_intro\<close>. The first component of the result says whether
  \<open>release_resources\<close> has been called when the function is left; the second is the
  returned dictionary or the exception that left the function.
\<close>

definition detect_intro :: "config \<Rightarrow> video \<Rightarrow> bool \<times> (error + detection_result)" where
  "detect_intro cfg v =
     (case VideoProcessor_init v of
        Inl e \<Rightarrow> (False, Inl e)
      | Inr extractor \<Rightarrow>
          let fingerprints = extract_fingerprints extractor in
          (case compute_similarity_matrix fingerprints of
             Inl e \<Rightarrow> (False, Inl e)
           | Inr (similarity_matrix, times') \<Rightarrow>
          (case find_intro_candidates cfg similarity_matrix times' of
             Inl e \<Rightarrow> (False, Inl e)
           | Inr candidates \<Rightarrow>
               (True,
                if candidates = [] then Inr NotFound
                else let best_candidate = candidates ! 0
                     in Inr (Found (start_time best_candidate) (end_time best_candidate)
                               (duration best_candidate) (similarity_score best_candidate))))))"

text \<open>\<open>filename.endswith(('.mp4', '.avi', '.mkv'))\<close>.\<close>

definition endswith :: "string \<Rightarrow> string \<Rightarrow> bool" where
  "endswith s suffix \<longleftrightarrow>
     length suffix \<le> length s \<and> drop (length s - length suffix) s = suffix"

definition supported :: "string \<Rightarrow> bool" where
  "supported filename \<longleftrightarrow>
     endswith filename ''.mp4'' \<or> endswith filename ''.avi'' \<or> endswith filename ''.mkv''"

text \<open>
  \<open>batch_detect_intros\<close> (lines 140-154). The directory is the list of its file names
  as \<open>os.listdir\<close> yields them, each with the video behind the name; the results
  dictionary is an association list. Writing the dictionary to the output file, which
  follows the loop, is not modelled.
\<close>

fun batch_loop ::
  "config \<Rightarrow> (string \<times> video) list \<Rightarrow> (string \<times> detection_result) list
     \<Rightarrow> error + (string \<times> detection_result) list" where
  "batch_loop cfg [] results = Inr results"
| "batch_loop cfg ((filename, v) # files) results =
     (if supported filename then
        (case snd (detect_intro cfg v) of
           Inl e \<Rightarrow> Inl e
         | Inr result \<Rightarrow> batch_loop cfg files (AList.update filename result results))
      else batch_loop cfg files results)"

definition batch_detect_intros ::
  "config \<Rightarrow> (string \<times> video) list \<Rightarrow> error + (string \<times> detection_result) list" where
  "batch_detect_intros cfg video_directory = batch_loop cfg video_directory []"

text \<open>
  The loop of \<open>main\<close> in scripts/run_detector.py (lines 63-79), the other batch driver
  of the repository: each call of \<open>detect_intro\<close> is wrapped in try/except, a failing
  file is reported and left out, and the loop goes on.
\<close>

fun main_loop ::
  "config \<Rightarrow> (string \<times> video) list \<Rightarrow> (string \<times> detection_result) list
     \<Rightarrow> (string \<times> detection_result) list" where
  "main_loop cfg [] results = results"
| "main_loop cfg ((file_name, v) # video_files) results =
     (case snd (detect_intro cfg v) of
        Inl e \<Rightarrow> main_loop cfg video_files results
      | Inr result \<Rightarrow> main_loop cfg video_files (AList.update file_name result results))"

section \<open>Notions used in the statements\<close>

text \<open>No two entries of a candidate list, at different positions, overlap.\<close>

definition pairwise_disjoint :: "candidate list \<Rightarrow> bool" where
  "pairwise_disjoint cs \<longleftrightarrow>
     (\<forall>a < length cs. \<forall>b < length cs. a \<noteq> b \<longrightarrow> \<not> overlaps (cs ! a) (cs ! b))"

text \<open>
  The index pairs that the two loops of lines 40-44 hand to the probe: \<open>i\<close> from
  \<open>range(n)\<close>, \<open>j\<close> from \<open>range(i + int(min_intro_length), n)\<close>, and the test of
  line 43 not skipping the pair.
\<close>

definition in_scope :: "config \<Rightarrow> real list \<Rightarrow> int \<Rightarrow> int \<Rightarrow> bool" where
  "in_scope cfg times' i j \<longleftrightarrow>
     0 \<le> i \<and> i < int (length times') \<and>
     i + py_int (min_intro_length cfg) \<le> j \<and> j < int (length times') \<and>
     too_long cfg times' i j = Inr False"

text \<open>The candidate \<open>c\<close> is what lines 47-67 append for the pair \<open>(i, j)\<close>.\<close>

definition generated_from ::
  "config \<Rightarrow> matrix \<Rightarrow> real list \<Rightarrow> int \<Rightarrow> int \<Rightarrow> candidate \<Rightarrow> bool" where
  "generated_from cfg m times' i j c \<longleftrightarrow>
     (case probe_pair cfg m times' i j of Inl e \<Rightarrow> False | Inr new \<Rightarrow> c \<in> set new)"

text \<open>
  The pair condition in the words of the specification, for a given number of samples
  that the minimum intro length is taken to correspond to: \<open>j > i + min_intro_length_samples\<close>
  and \<open>times[j] - times[i] \<le> max_intro_length\<close>.
\<close>

definition spec_pair_in_scope :: "real \<Rightarrow> config \<Rightarrow> real list \<Rightarrow> int \<Rightarrow> int \<Rightarrow> bool" where
  "spec_pair_in_scope min_intro_length_samples cfg times' i j \<longleftrightarrow>
     real_of_int j > real_of_int i + min_intro_length_samples \<and>
     (case py_index times' j of
        Inl e \<Rightarrow> False
      | Inr tj \<Rightarrow> (case py_index times' i of
                     Inl e \<Rightarrow> False
                   | Inr ti \<Rightarrow> tj - ti \<le> max_intro_length cfg))"

text \<open>
  The bound of the extension walk in the words of the specification, for a given number
  of samples that the maximum intro length is taken to correspond to: \<open>k\<close> stays below
  that number and below the remaining extent \<open>n - j\<close> of the matrix.
\<close>

definition spec_walk_bound :: "real \<Rightarrow> int \<Rightarrow> int \<Rightarrow> real" where
  "spec_walk_bound max_intro_length_samples n j =
     min max_intro_length_samples (real_of_int (n - j))"

text \<open>An \<open>n \<times> n\<close> matrix, the shape \<open>compute_similarity_matrix\<close> produces.\<close>

definition square :: "matrix \<Rightarrow> nat \<Rightarrow> bool" where
  "square m n \<longleftrightarrow> length m = n \<and> (\<forall>row \<in> set m. length row = n)"

text \<open>Every entry off the main diagonal is strictly below the threshold.\<close>

definition off_diagonal_below :: "matrix \<Rightarrow> real \<Rightarrow> bool" where
  "off_diagonal_below m thr \<longleftrightarrow>
     list_all (\<lambda>a. list_all (\<lambda>b. a = b \<or> m ! a ! b < thr) [0..<length (m ! a)]) [0..<length m]"

text \<open>
  The similarity that lines 59-63 compute for the cell \<open>(i, j)\<close>, and the statement that
  they compute it without raising for all cells of an \<open>n \<times> n\<close> matrix.
\<close>

definition cell_similarity :: "(real \<times> fingerprint) list \<Rightarrow> real list \<Rightarrow> nat \<Rightarrow> nat \<Rightarrow> real" where
  "cell_similarity fps times' i j =
     (case dict_get fps (times' ! i) of
        Inl e \<Rightarrow> 0
      | Inr f1 \<Rightarrow> (case dict_get fps (times' ! j) of
                     Inl e \<Rightarrow> 0
                   | Inr f2 \<Rightarrow> (case similarity f1 f2 of Inl e \<Rightarrow> 0 | Inr s \<Rightarrow> s)))"

definition sim_at ::
  "(real \<times> fingerprint) list \<Rightarrow> real list \<Rightarrow> nat \<Rightarrow> (nat \<Rightarrow> nat \<Rightarrow> real) \<Rightarrow> bool" where
  "sim_at fps times' n S \<longleftrightarrow>
     (\<forall>i < n. \<forall>j < n. \<exists>f1 f2. dict_get fps (times' ! i) = Inr f1 \<and>
        dict_get fps (times' ! j) = Inr f2 \<and> similarity f1 f2 = Inr (S i j))"

section \<open>Concrete inputs\<close>

text \<open>The constructor defaults of \<open>IntroDetector\<close>, and variations of the minimum length.\<close>

definition default_config :: config where
  "default_config = \<lparr>min_intro_length = 2, max_intro_length = 30, similarity_threshold = 4 / 5\<rparr>"

definition half_config :: config where
  "half_config = \<lparr>min_intro_length = 1 / 2, max_intro_length = 30, similarity_threshold = 4 / 5\<rparr>"

definition four_config :: config where
  "four_config = \<lparr>min_intro_length = 4, max_intro_length = 30, similarity_threshold = 4 / 5\<rparr>"

definition zero_config :: config where
  "zero_config = \<lparr>min_intro_length = 0, max_intro_length = 30, similarity_threshold = 4 / 5\<rparr>"

definition negative_config :: config where
  "negative_config = \<lparr>min_intro_length = - 1, max_intro_length = 30, similarity_threshold = 4 / 5\<rparr>"

text \<open>
  Eight samples two seconds apart; samples 0-3 repeat as samples 4-7, and samples 4-5
  repeat as samples 6-7.
\<close>

definition repeat_times :: "real list" where
  "repeat_times = [0, 2, 4, 6, 8, 10, 12, 14]"

definition repeat_matrix :: matrix where
  "repeat_matrix =
     [[1, 0, 0, 0, 1, 0, 0, 0],
      [0, 1, 0, 0, 0, 1, 0, 0],
      [0, 0, 1, 0, 0, 0, 1, 0],
      [0, 0, 0, 1, 0, 0, 0, 1],
      [1, 0, 0, 0, 1, 0, 1, 0],
      [0, 1, 0, 0, 0, 1, 0, 1],
      [0, 0, 1, 0, 1, 0, 1, 0],
      [0, 0, 0, 1, 0, 1, 0, 1]]"

text \<open>
  Samples 0-4 repeat as samples 3-7, except that the third pair of the run, cell
  \<open>(2, 5)\<close>, is only 0.7 similar.
\<close>

definition gap_matrix :: matrix where
  "gap_matrix =
     [[1, 0, 0, 1, 0, 0, 0, 0],
      [0, 1, 0, 0, 1, 0, 0, 0],
      [0, 0, 1, 0, 0, 7 / 10, 0, 0],
      [1, 0, 0, 1, 0, 0, 1, 0],
      [0, 1, 0, 0, 1, 0, 0, 1],
      [0, 0, 7 / 10, 0, 0, 1, 0, 0],
      [0, 0, 0, 1, 0, 0, 1, 0],
      [0, 0, 0, 0, 1, 0, 0, 1]]"

text \<open>Six samples; samples 0-2 repeat as samples 3-5.\<close>

definition shifted_times :: "real list" where
  "shifted_times = [0, 2, 4, 6, 8, 10]"

definition shifted_matrix :: matrix where
  "shifted_matrix =
     [[1, 0, 0, 1, 0, 0],
      [0, 1, 0, 0, 1, 0],
      [0, 0, 1, 0, 0, 1],
      [1, 0, 0, 1, 0, 0],
      [0, 1, 0, 0, 1, 0],
      [0, 0, 1, 0, 0, 1]]"

text \<open>Three samples that have nothing in common.\<close>

definition identity_matrix :: matrix where
  "identity_matrix = [[1, 0, 0], [0, 1, 0], [0, 0, 1]]"

text \<open>
  Videos: one second long with one frame; a file that cannot be opened (OpenCV reports
  zero for both properties); sixteen seconds whose frames 0, 2, 4, 6 come back as frames
  8, 10, 12, 14; six seconds with three different frames.
\<close>

definition short_video :: video where
  "short_video = \<lparr>fps_prop = 1, frame_count_prop = 1, read_frame = (\<lambda>k. Some (replicate 64 True))\<rparr>"

definition broken_video :: video where
  "broken_video = \<lparr>fps_prop = 0, frame_count_prop = 0, read_frame = (\<lambda>k. None)\<rparr>"

definition repeat_video :: video where
  "repeat_video =
     \<lparr>fps_prop = 1, frame_count_prop = 16,
      read_frame = (\<lambda>k. Some (if k mod 8 = 0 then replicate 64 True
                               else if k mod 8 = 2 then replicate 64 False
                               else if k mod 8 = 4 then replicate 32 True @ replicate 32 False
                               else replicate 32 False @ replicate 32 True))\<rparr>"

definition distinct_video :: video where
  "distinct_video =
     \<lparr>fps_prop = 1, frame_count_prop = 6,
      read_frame = (\<lambda>k. Some (if k = 0 then replicate 64 True
                               else if k = 2 then replicate 64 False
                               else replicate 32 True @ replicate 32 False))\<rparr>"

text \<open>
  The matrices that \<open>compute_similarity_matrix\<close> yields for the video with three
  different frames and for the video whose frames come back.
\<close>

definition distinct_matrix :: matrix where
  "distinct_matrix = [[1, 0, 1 / 2], [0, 1, 1 / 2], [1 / 2, 1 / 2, 1]]"

definition repeat_video_matrix :: matrix where
  "repeat_video_matrix =
     [[1, 0, 1 / 2, 1 / 2, 1, 0, 1 / 2, 1 / 2],
      [0, 1, 1 / 2, 1 / 2, 0, 1, 1 / 2, 1 / 2],
      [1 / 2, 1 / 2, 1, 0, 1 / 2, 1 / 2, 1, 0],
      [1 / 2, 1 / 2, 0, 1, 1 / 2, 1 / 2, 0, 1],
      [1, 0, 1 / 2, 1 / 2, 1, 0, 1 / 2, 1 / 2],
      [0, 1, 1 / 2, 1 / 2, 0, 1, 1 / 2, 1 / 2],
      [1 / 2, 1 / 2, 1, 0, 1 / 2, 1 / 2, 1, 0],
      [1 / 2, 1 / 2, 0, 1, 1 / 2, 1 / 2, 0, 1]]"

text \<open>
  Forty samples two seconds apart that are all alike; and eight samples of which 0-4
  repeat as 3-7, except that the first pair of the run, cell \<open>(0, 3)\<close>, is only 0.7
  similar.
\<close>

definition long_times :: "real list" where
  "long_times = map (\<lambda>k. 2 * real k) [0..<40]"

definition ones_matrix :: matrix where
  "ones_matrix = replicate 40 (replicate 40 1)"

definition weak_start_matrix :: matrix where
  "weak_start_matrix =
     [[1, 0, 0, 7 / 10, 0, 0, 0, 0],
      [0, 1, 0, 0, 1, 0, 0, 0],
      [0, 0, 1, 0, 0, 1, 0, 0],
      [7 / 10, 0, 0, 1, 0, 0, 1, 0],
      [0, 1, 0, 0, 1, 0, 0, 1],
      [0, 0, 1, 0, 0, 1, 0, 0],
      [0, 0, 0, 1, 0, 0, 1, 0],
      [0, 0, 0, 0, 1, 0, 0, 1]]"

section \<open>The overlap filter\<close>

lemma overlaps_commute: "overlaps a b \<longleftrightarrow> overlaps b a"
  by (auto simp: overlaps_def)

lemma pairwise_disjoint_snoc:
  assumes "pairwise_disjoint acc" and "\<not> (\<exists>fc \<in> set acc. overlaps c fc)"
  shows "pairwise_disjoint (acc @ [c])"
  unfolding pairwise_disjoint_def
proof (intro allI impI)
  fix a b
  assume a: "a < length (acc @ [c])" and b: "b < length (acc @ [c])" and ne: "a \<noteq> b"
  consider "a < length acc" "b < length acc"
    | "a < length acc" "b = length acc"
    | "a = length acc" "b < length acc"
    using a b ne by (cases "a < length acc"; cases "b < length acc") auto
  then show "\<not> overlaps ((acc @ [c]) ! a) ((acc @ [c]) ! b)"
  proof cases
    case 1
    then show ?thesis
      using assms(1) ne by (simp add: pairwise_disjoint_def nth_append)
  next
    case 2
    then have "acc ! a \<in> set acc" by simp
    then have "\<not> overlaps c (acc ! a)" using assms(2) by blast
    then show ?thesis using 2 by (simp add: nth_append overlaps_commute)
  next
    case 3
    then have "acc ! b \<in> set acc" by simp
    then have "\<not> overlaps c (acc ! b)" using assms(2) by blast
    then show ?thesis using 3 by (simp add: nth_append)
  qed
qed

lemma remove_overlapping_invariant:
  "length acc < 5 \<Longrightarrow> pairwise_disjoint acc \<Longrightarrow>
     length (remove_overlapping cs acc) \<le> 5 \<and> pairwise_disjoint (remove_overlapping cs acc)"
proof (induction cs arbitrary: acc)
  case Nil
  then show ?case by simp
next
  case (Cons c cs)
  show ?case
  proof (cases "\<exists>fc \<in> set acc. overlaps c fc")
    case True
    then show ?thesis using Cons by simp
  next
    case False
    then have pd: "pairwise_disjoint (acc @ [c])"
      using Cons.prems(2) pairwise_disjoint_snoc by blast
    show ?thesis
    proof (cases "length (acc @ [c]) \<ge> 5")
      case True
      then have "remove_overlapping (c # cs) acc = acc @ [c]"
        using False by simp
      moreover have "length (acc @ [c]) \<le> 5" using Cons.prems(1) by simp
      ultimately show ?thesis using pd by simp
    next
      case ge: False
      then have "remove_overlapping (c # cs) acc = remove_overlapping cs (acc @ [c])"
        using False by simp
      moreover have "length (acc @ [c]) < 5" using ge by simp
      ultimately show ?thesis using Cons.IH pd by simp
    qed
  qed
qed

lemma set_remove_overlapping: "set (remove_overlapping cs acc) \<subseteq> set cs \<union> set acc"
proof (induction cs arbitrary: acc)
  case Nil
  then show ?case by simp
next
  case (Cons c cs)
  have "set (remove_overlapping cs acc) \<subseteq> set cs \<union> set acc"
    and "set (remove_overlapping cs (acc @ [c])) \<subseteq> set cs \<union> set (acc @ [c])"
    using Cons.IH by blast+
  then show ?case by (auto split: if_splits)
qed

lemma pairwise_disjoint_Nil: "pairwise_disjoint []"
  by (simp add: pairwise_disjoint_def)

lemma find_intro_candidates_InrD:
  "find_intro_candidates cfg m ts = Inr out \<Longrightarrow>
     \<exists>cs. collect_candidates cfg m ts = Inr cs \<and> out = remove_overlapping (rank_candidates cs) []"
  by (auto simp: find_intro_candidates_def split: sum.splits)

section \<open>The two loops of the search\<close>

lemma set_py_range: "set (py_range a b) = {k. a \<le> k \<and> k < b}"
proof -
  have "k \<in> (\<lambda>d. a + int d) ` {0..<nat (b - a)} \<longleftrightarrow> a \<le> k \<and> k < b" for k
  proof
    assume "k \<in> (\<lambda>d. a + int d) ` {0..<nat (b - a)}"
    then show "a \<le> k \<and> k < b" by auto
  next
    assume h: "a \<le> k \<and> k < b"
    then have "k = a + int (nat (k - a))" and "nat (k - a) \<in> {0..<nat (b - a)}"
      by auto
    then show "k \<in> (\<lambda>d. a + int d) ` {0..<nat (b - a)}" by blast
  qed
  then show ?thesis by (auto simp: py_range_def simp del: atLeastLessThan_iff)
qed

lemma pair_step_InrD:
  assumes "pair_step cfg m ts i j cands = Inr out"
  shows "(too_long cfg ts i j = Inr True \<and> out = cands) \<or>
         (too_long cfg ts i j = Inr False \<and>
            (\<exists>new. probe_pair cfg m ts i j = Inr new \<and> out = cands @ new))"
  using assms by (auto simp: pair_step_def split: sum.splits if_splits)

lemma inner_loop_mono:
  "inner_loop cfg m ts i js cands = Inr out \<Longrightarrow> set cands \<subseteq> set out"
proof (induction js arbitrary: cands)
  case Nil
  then show ?case by simp
next
  case (Cons j js)
  then obtain mid where s: "pair_step cfg m ts i j cands = Inr mid"
    and r: "inner_loop cfg m ts i js mid = Inr out"
    by (auto split: sum.splits)
  have "set cands \<subseteq> set mid" using pair_step_InrD [OF s] by auto
  moreover have "set mid \<subseteq> set out" using Cons.IH [OF r] .
  ultimately show ?case by blast
qed

lemma inner_loop_sound:
  "inner_loop cfg m ts i js cands = Inr out \<Longrightarrow> c \<in> set out \<Longrightarrow>
     c \<in> set cands \<or>
     (\<exists>j \<in> set js. too_long cfg ts i j = Inr False \<and> generated_from cfg m ts i j c)"
proof (induction js arbitrary: cands)
  case Nil
  then show ?case by simp
next
  case (Cons j js)
  then obtain mid where s: "pair_step cfg m ts i j cands = Inr mid"
    and r: "inner_loop cfg m ts i js mid = Inr out"
    by (auto split: sum.splits)
  from Cons.IH [OF r Cons.prems(2)] show ?case
  proof
    assume "c \<in> set mid"
    then show ?thesis using pair_step_InrD [OF s]
      by (auto simp: generated_from_def)
  next
    assume "\<exists>j \<in> set js. too_long cfg ts i j = Inr False \<and> generated_from cfg m ts i j c"
    then show ?thesis by auto
  qed
qed

lemma inner_loop_complete:
  "inner_loop cfg m ts i js cands = Inr out \<Longrightarrow> j \<in> set js \<Longrightarrow>
     too_long cfg ts i j = Inr True \<or>
     (too_long cfg ts i j = Inr False \<and>
        (\<exists>new. probe_pair cfg m ts i j = Inr new \<and> set new \<subseteq> set out))"
proof (induction js arbitrary: cands)
  case Nil
  then show ?case by simp
next
  case (Cons j' js)
  then obtain mid where s: "pair_step cfg m ts i j' cands = Inr mid"
    and r: "inner_loop cfg m ts i js mid = Inr out"
    by (auto split: sum.splits)
  show ?case
  proof (cases "j = j'")
    case True
    have "set mid \<subseteq> set out" using inner_loop_mono [OF r] .
    then show ?thesis using pair_step_InrD [OF s] True by auto
  next
    case False
    then have "j \<in> set js" using Cons.prems(2) by simp
    then show ?thesis using Cons.IH [OF r] by blast
  qed
qed

lemma outer_loop_mono:
  "outer_loop cfg m ts is cands = Inr out \<Longrightarrow> set cands \<subseteq> set out"
proof (induction "is" arbitrary: cands)
  case Nil
  then show ?case by simp
next
  case (Cons i "is")
  then obtain mid where
    s: "inner_loop cfg m ts i (py_range (i + py_int (min_intro_length cfg)) (int (length ts))) cands = Inr mid"
    and r: "outer_loop cfg m ts is mid = Inr out"
    by (auto split: sum.splits)
  show ?case using inner_loop_mono [OF s] Cons.IH [OF r] by blast
qed

lemma outer_loop_sound:
  "outer_loop cfg m ts is cands = Inr out \<Longrightarrow> c \<in> set out \<Longrightarrow>
     c \<in> set cands \<or>
     (\<exists>i \<in> set is. \<exists>j. i + py_int (min_intro_length cfg) \<le> j \<and> j < int (length ts) \<and>
         too_long cfg ts i j = Inr False \<and> generated_from cfg m ts i j c)"
proof (induction "is" arbitrary: cands)
  case Nil
  then show ?case by simp
next
  case (Cons i "is")
  then obtain mid where
    s: "inner_loop cfg m ts i (py_range (i + py_int (min_intro_length cfg)) (int (length ts))) cands = Inr mid"
    and r: "outer_loop cfg m ts is mid = Inr out"
    by (auto split: sum.splits)
  from Cons.IH [OF r Cons.prems(2)] show ?case
  proof
    assume "c \<in> set mid"
    from inner_loop_sound [OF s this] show ?thesis
      by (auto simp: set_py_range)
  next
    assume "\<exists>i \<in> set is. \<exists>j. i + py_int (min_intro_length cfg) \<le> j \<and> j < int (length ts) \<and>
         too_long cfg ts i j = Inr False \<and> generated_from cfg m ts i j c"
    then show ?thesis by auto
  qed
qed

lemma outer_loop_complete:
  "outer_loop cfg m ts is cands = Inr out \<Longrightarrow> i \<in> set is \<Longrightarrow>
     i + py_int (min_intro_length cfg) \<le> j \<Longrightarrow> j < int (length ts) \<Longrightarrow>
     too_long cfg ts i j = Inr True \<or>
     (too_long cfg ts i j = Inr False \<and>
        (\<exists>new. probe_pair cfg m ts i j = Inr new \<and> set new \<subseteq> set out))"
proof (induction "is" arbitrary: cands)
  case Nil
  then show ?case by simp
next
  case (Cons i' "is")
  then obtain mid where
    s: "inner_loop cfg m ts i' (py_range (i' + py_int (min_intro_length cfg)) (int (length ts))) cands = Inr mid"
    and r: "outer_loop cfg m ts is mid = Inr out"
    by (auto split: sum.splits)
  show ?case
  proof (cases "i = i'")
    case True
    have "j \<in> set (py_range (i' + py_int (min_intro_length cfg)) (int (length ts)))"
      using Cons.prems True by (simp add: set_py_range)
    from inner_loop_complete [OF s this] outer_loop_mono [OF r]
    show ?thesis using True by blast
  next
    case False
    then have "i \<in> set is" using Cons.prems(2) by simp
    then show ?thesis using Cons.IH [OF r _ Cons.prems(3,4)] by blast
  qed
qed

lemma collect_candidates_sound:
  assumes "collect_candidates cfg m ts = Inr cs" and "c \<in> set cs"
  shows "\<exists>i j. in_scope cfg ts i j \<and> generated_from cfg m ts i j c"
  using outer_loop_sound [OF assms [unfolded collect_candidates_def]]
  by (auto simp: set_py_range in_scope_def)

lemma collect_candidates_complete:
  assumes "collect_candidates cfg m ts = Inr cs" and "in_scope cfg ts i j"
  shows "\<exists>new. probe_pair cfg m ts i j = Inr new \<and> set new \<subseteq> set cs"
proof -
  have "i \<in> set (py_range 0 (int (length ts)))"
    using assms(2) by (simp add: set_py_range in_scope_def)
  from outer_loop_complete [OF assms(1) [unfolded collect_candidates_def] this, of j]
  show ?thesis using assms(2) by (auto simp: in_scope_def)
qed

lemma find_intro_candidates_subset:
  assumes "find_intro_candidates cfg m ts = Inr out"
  shows "\<exists>cs. collect_candidates cfg m ts = Inr cs \<and> set out \<subseteq> set cs"
proof -
  obtain cs where cs: "collect_candidates cfg m ts = Inr cs"
    and out: "out = remove_overlapping (rank_candidates cs) []"
    using find_intro_candidates_InrD [OF assms] by blast
  have "set out \<subseteq> set cs"
    using set_remove_overlapping [of "rank_candidates cs" "[]"] out
    by (simp add: rank_candidates_def)
  then show ?thesis using cs by blast
qed

lemma generated_from_props:
  assumes "generated_from cfg m ts i j c"
  shows "similarity_threshold cfg < similarity_score c"
    and "min_intro_length cfg \<le> duration c" and "duration c \<le> max_intro_length cfg"
    and "\<exists>end_offset ti te.
           extend_match m (similarity_threshold cfg) i j
             (py_range 0 (min (py_int (max_intro_length cfg)) (int (length ts) - j))) 0 = Inr end_offset \<and>
           py_index ts i = Inr ti \<and> py_index ts (i + end_offset) = Inr te \<and>
           start_time c = ti \<and> end_time c = te \<and> duration c = te - ti"
    and "\<exists>cells. diagonal_cells m i j (py_range 0 (min 20 (int (length ts) - j))) = Inr cells \<and>
           similarity_score c = np_mean cells"
  using assms
  by (auto simp: generated_from_def probe_pair_def Let_def split: sum.splits if_splits)

section \<open>The extension loop\<close>

lemma extend_match_prefix:
  "extend_match m thr i j ks e0 = Inr e \<Longrightarrow>
     \<exists>pre post. ks = pre @ post \<and>
       (\<forall>k \<in> set pre. \<exists>v. mat_get m (i + k) (j + k) = Inr v \<and> thr < v) \<and>
       (post = [] \<or> (\<exists>v. mat_get m (i + hd post) (j + hd post) = Inr v \<and> \<not> thr < v)) \<and>
       e = last (e0 # pre)"
proof (induction ks arbitrary: e0)
  case Nil
  then show ?case by simp
next
  case (Cons k ks)
  then obtain v where v: "mat_get m (i + k) (j + k) = Inr v"
    by (auto split: sum.splits)
  show ?case
  proof (cases "thr < v")
    case True
    then have "extend_match m thr i j ks k = Inr e"
      using Cons.prems v by simp
    from Cons.IH [OF this] obtain pre post where
      p: "ks = pre @ post"
      "\<forall>k \<in> set pre. \<exists>v. mat_get m (i + k) (j + k) = Inr v \<and> thr < v"
      "post = [] \<or> (\<exists>v. mat_get m (i + hd post) (j + hd post) = Inr v \<and> \<not> thr < v)"
      "e = last (k # pre)"
      by blast
    have "k # ks = (k # pre) @ post" using p(1) by simp
    moreover have "\<forall>k' \<in> set (k # pre). \<exists>v. mat_get m (i + k') (j + k') = Inr v \<and> thr < v"
      using p(2) v True by simp
    moreover have "e = last (e0 # k # pre)" using p(4) by simp
    ultimately show ?thesis using p(3) by blast
  next
    case False
    then have "e = e0" using Cons.prems v by simp
    moreover have "k # ks = [] @ (k # ks)" by simp
    moreover have "\<exists>v. mat_get m (i + hd (k # ks)) (j + hd (k # ks)) = Inr v \<and> \<not> thr < v"
      using v False by simp
    ultimately show ?thesis by (metis empty_iff last.simps list.set(1) list.distinct(1))
  qed
qed

lemma py_range_split:
  assumes "py_range 0 B = pre @ post"
  shows "pre = map int [0..<length pre]"
    and "int (length pre) \<le> max 0 B"
    and "post \<noteq> [] \<Longrightarrow> hd post = int (length pre) \<and> int (length pre) < B"
proof -
  have eq: "map int [0..<nat B] = pre @ post"
    using assms by (simp add: py_range_def)
  then have len: "length pre + length post = nat B"
    by (metis length_append length_map length_upt diff_zero)
  have "pre = take (length pre) (map int [0..<nat B])"
    using eq by simp
  also have "\<dots> = map int [0..<length pre]"
    using len by (simp add: take_map take_upt)
  finally show "pre = map int [0..<length pre]" .
  show "int (length pre) \<le> max 0 B" using len by linarith
  assume ne: "post \<noteq> []"
  have "post = drop (length pre) (map int [0..<nat B])"
    using eq by simp
  then have "post = map int [length pre..<nat B]"
    by (simp add: drop_map drop_upt)
  moreover have lt: "length pre < nat B" using len ne by (cases post) auto
  ultimately have "hd post = int (length pre)"
    by (simp add: upt_conv_Cons)
  then show "hd post = int (length pre) \<and> int (length pre) < B"
    using lt by linarith
qed

lemma extend_match_run:
  assumes "extend_match m thr i j (py_range 0 B) 0 = Inr end_offset"
  shows "\<exists>p. 0 \<le> p \<and> p \<le> max 0 B \<and>
           (\<forall>k. 0 \<le> k \<and> k < p \<longrightarrow> (\<exists>v. mat_get m (i + k) (j + k) = Inr v \<and> thr < v)) \<and>
           (p < B \<longrightarrow> (\<exists>v. mat_get m (i + p) (j + p) = Inr v \<and> \<not> thr < v)) \<and>
           end_offset = (if p = 0 then 0 else p - 1)"
proof -
  from extend_match_prefix [OF assms] obtain pre post where
    sp: "py_range 0 B = pre @ post"
    and ab: "\<forall>k \<in> set pre. \<exists>v. mat_get m (i + k) (j + k) = Inr v \<and> thr < v"
    and st: "post = [] \<or> (\<exists>v. mat_get m (i + hd post) (j + hd post) = Inr v \<and> \<not> thr < v)"
    and e: "end_offset = last (0 # pre)"
    by blast
  let ?p = "int (length pre)"
  note s = py_range_split [OF sp]
  have a: "\<forall>k. 0 \<le> k \<and> k < ?p \<longrightarrow> (\<exists>v. mat_get m (i + k) (j + k) = Inr v \<and> thr < v)"
  proof (intro allI impI)
    fix k assume k: "0 \<le> k \<and> k < ?p"
    then have "nat k < length pre" by linarith
    then have "pre ! nat k \<in> set pre" by simp
    moreover have "pre ! nat k = k"
      using s(1) k \<open>nat k < length pre\<close>
      by (metis add.left_neutral int_nat_eq length_map nth_map nth_upt length_upt diff_zero)
    ultimately show "\<exists>v. mat_get m (i + k) (j + k) = Inr v \<and> thr < v"
      using ab by metis
  qed
  have b: "?p < B \<longrightarrow> (\<exists>v. mat_get m (i + ?p) (j + ?p) = Inr v \<and> \<not> thr < v)"
  proof
    assume lt: "?p < B"
    have "post \<noteq> []"
    proof
      assume "post = []"
      then have "length (py_range 0 B) = length pre" using sp by simp
      then show False using lt by (simp add: py_range_def)
    qed
    then show "\<exists>v. mat_get m (i + ?p) (j + ?p) = Inr v \<and> \<not> thr < v"
      using st s(3) by auto
  qed
  have c: "end_offset = (if ?p = 0 then 0 else ?p - 1)"
  proof (cases "pre = []")
    case True
    then show ?thesis using e by simp
  next
    case False
    then have "last (0 # pre) = pre ! (length pre - 1)"
      by (simp add: last_conv_nth)
    also have "\<dots> = int (length pre - 1)"
      using s(1) False
      by (metis add.left_neutral diff_less length_greater_0_conv length_map length_upt diff_zero
          nth_map nth_upt zero_less_one)
    finally show ?thesis using e False by (simp add: of_nat_diff Suc_leI)
  qed
  show ?thesis using a b c s(2) by (intro exI [of _ ?p]) simp
qed

section \<open>Matrices below the threshold and short timelines\<close>

lemma py_index_in_range:
  "0 \<le> i \<Longrightarrow> i < int (length xs) \<Longrightarrow> py_index xs i = Inr (xs ! nat i)"
  by (simp add: py_index_def Let_def)

lemma mat_get_in_range:
  assumes "square m n" and "0 \<le> a" and "a < int n" and "0 \<le> b" and "b < int n"
  shows "mat_get m a b = Inr (m ! nat a ! nat b)"
proof -
  have "nat a < length m" using assms by (simp add: square_def)
  then have "length (m ! nat a) = n" using assms(1) by (simp add: square_def)
  then show ?thesis
    using assms by (simp add: mat_get_def py_index_in_range square_def)
qed

lemma diagonal_cells_in_range:
  assumes "square m n"
    and "\<forall>k \<in> set ks. 0 \<le> i + k \<and> i + k < int n \<and> 0 \<le> j + k \<and> j + k < int n"
  shows "diagonal_cells m i j ks = Inr (map (\<lambda>k. m ! nat (i + k) ! nat (j + k)) ks)"
  using assms(2)
proof (induction ks)
  case Nil
  then show ?case by simp
next
  case (Cons k ks)
  then show ?case using mat_get_in_range [OF assms(1), of "i + k" "j + k"] by simp
qed

lemma sum_list_less:
  "xs \<noteq> [] \<Longrightarrow> \<forall>x \<in> set xs. x < (t::real) \<Longrightarrow> sum_list xs < real (length xs) * t"
proof (induction xs)
  case Nil
  then show ?case by simp
next
  case (Cons x xs)
  show ?case
  proof (cases "xs = []")
    case True
    then show ?thesis using Cons.prems by simp
  next
    case False
    then have "sum_list xs < real (length xs) * t" using Cons by simp
    moreover have "x < t" using Cons.prems by simp
    ultimately show ?thesis by (simp add: algebra_simps)
  qed
qed

lemma np_mean_less:
  assumes "xs \<noteq> []" and "\<forall>x \<in> set xs. x < t"
  shows "np_mean xs < t"
proof -
  have "0 < real (length xs)" using assms(1) by simp
  then show ?thesis
    using sum_list_less [OF assms] by (simp add: np_mean_def pos_divide_less_eq mult.commute)
qed

lemma py_range_nonempty: "a < b \<Longrightarrow> py_range a b \<noteq> []"
  by (simp add: py_range_def)

lemma pair_step_below_threshold:
  assumes sq: "square m (length ts)"
    and low: "\<forall>a < length ts. \<forall>b < length ts. a \<noteq> b \<longrightarrow> m ! a ! b < similarity_threshold cfg"
    and i: "0 \<le> i" and ij: "i < j" and j: "j < int (length ts)"
  shows "pair_step cfg m ts i j cands = Inr cands"
proof -
  let ?n = "int (length ts)"
  let ?ks = "py_range 0 (min 20 (?n - j))"
  have tl: "too_long cfg ts i j = Inr (ts ! nat j - ts ! nat i > max_intro_length cfg)"
    using i ij j by (simp add: too_long_def py_index_in_range)
  have ks: "\<forall>k \<in> set ?ks. 0 \<le> i + k \<and> i + k < ?n \<and> 0 \<le> j + k \<and> j + k < ?n"
    using i ij j by (auto simp: set_py_range)
  have cells: "diagonal_cells m i j ?ks = Inr (map (\<lambda>k. m ! nat (i + k) ! nat (j + k)) ?ks)"
    using diagonal_cells_in_range [OF sq ks] .
  have ne: "map (\<lambda>k. m ! nat (i + k) ! nat (j + k)) ?ks \<noteq> []"
    using j py_range_nonempty [of 0 "min 20 (?n - j)"] by simp
  have "\<forall>x \<in> set (map (\<lambda>k. m ! nat (i + k) ! nat (j + k)) ?ks). x < similarity_threshold cfg"
  proof
    fix x assume "x \<in> set (map (\<lambda>k. m ! nat (i + k) ! nat (j + k)) ?ks)"
    then obtain k where k: "k \<in> set ?ks" and x: "x = m ! nat (i + k) ! nat (j + k)"
      by auto
    have "nat (i + k) < length ts" and "nat (j + k) < length ts" and "nat (i + k) \<noteq> nat (j + k)"
      using ks k ij by (auto simp: nat_less_iff)
    then show "x < similarity_threshold cfg" using low x by blast
  qed
  then have "np_mean (map (\<lambda>k. m ! nat (i + k) ! nat (j + k)) ?ks) < similarity_threshold cfg"
    using np_mean_less [OF ne] by blast
  then have "probe_pair cfg m ts i j = Inr []"
    using cells by (simp add: probe_pair_def Let_def)
  then show ?thesis using tl by (simp add: pair_step_def)
qed

lemma inner_loop_unchanged:
  "\<forall>j \<in> set js. pair_step cfg m ts i j cands = Inr cands \<Longrightarrow>
     inner_loop cfg m ts i js cands = Inr cands"
  by (induction js) auto

lemma outer_loop_unchanged:
  "\<forall>i \<in> set is. inner_loop cfg m ts i
       (py_range (i + py_int (min_intro_length cfg)) (int (length ts))) cands = Inr cands \<Longrightarrow>
     outer_loop cfg m ts is cands = Inr cands"
  by (induction "is") auto

lemma py_int_ge_1: "1 \<le> x \<Longrightarrow> 1 \<le> py_int x"
  by (simp add: py_int_def le_floor_iff)

lemma find_intro_candidates_below_threshold:
  assumes "1 \<le> min_intro_length cfg" and "square m (length ts)"
    and "\<forall>a < length ts. \<forall>b < length ts. a \<noteq> b \<longrightarrow> m ! a ! b < similarity_threshold cfg"
  shows "find_intro_candidates cfg m ts = Inr []"
proof -
  have "inner_loop cfg m ts i
          (py_range (i + py_int (min_intro_length cfg)) (int (length ts))) [] = Inr []"
    if "i \<in> set (py_range 0 (int (length ts)))" for i
  proof (rule inner_loop_unchanged, rule ballI)
    fix j assume "j \<in> set (py_range (i + py_int (min_intro_length cfg)) (int (length ts)))"
    then have "0 \<le> i" and "i < j" and "j < int (length ts)"
      using that py_int_ge_1 [OF assms(1)] by (auto simp: set_py_range)
    then show "pair_step cfg m ts i j [] = Inr []"
      using pair_step_below_threshold [OF assms(2,3)] by blast
  qed
  then have "collect_candidates cfg m ts = Inr []"
    unfolding collect_candidates_def by (intro outer_loop_unchanged) blast
  then show ?thesis by (simp add: find_intro_candidates_def rank_candidates_def)
qed

lemma find_intro_candidates_short_timeline:
  assumes "length ts \<le> 1" and "0 < min_intro_length cfg" and "square m (length ts)"
  shows "find_intro_candidates cfg m ts = Inr []"
proof (cases ts)
  case Nil
  then show ?thesis
    by (simp add: find_intro_candidates_def collect_candidates_def py_range_def rank_candidates_def)
next
  case (Cons t ts')
  then have ts: "ts = [t]" using assms(1) by simp
  obtain x where m: "m = [[x]]"
  proof -
    have "length m = 1" and "\<forall>row \<in> set m. length row = 1"
      using assms(3) ts by (simp_all add: square_def)
    then obtain r where "m = [r]" and "length r = 1"
      by (cases m) auto
    then obtain x where "m = [[x]]" by (cases r) auto
    then show ?thesis using that by blast
  qed
  have p0: "0 \<le> py_int (min_intro_length cfg)"
    using assms(2) by (simp add: py_int_def)
  have step: "pair_step cfg m ts 0 0 [] = Inr []"
  proof -
    let ?B = "min (py_int (max_intro_length cfg)) 1"
    have ext: "extend_match m (similarity_threshold cfg) 0 0 (py_range 0 ?B) 0 = Inr 0"
    proof (cases "1 \<le> py_int (max_intro_length cfg)")
      case True
      then have "py_range 0 ?B = [0]" by (simp add: py_range_def)
      then show ?thesis by (simp add: m mat_get_def py_index_def)
    next
      case False
      then have "py_range 0 ?B = []" by (simp add: py_range_def)
      then show ?thesis by simp
    qed
    have "probe_pair cfg m ts 0 0 = Inr []"
      using ext assms(2)
      by (simp add: probe_pair_def ts m py_range_def mat_get_def py_index_def Let_def)
    then show ?thesis
      by (simp add: pair_step_def too_long_def ts py_index_def)
  qed
  have "inner_loop cfg m ts 0 (py_range (0 + py_int (min_intro_length cfg)) 1) [] = Inr []"
  proof (cases "1 \<le> py_int (min_intro_length cfg)")
    case True
    then show ?thesis by (simp add: py_range_def)
  next
    case False
    then have "py_int (min_intro_length cfg) = 0" using p0 by simp
    then show ?thesis using step by (simp add: py_range_def)
  qed
  then show ?thesis
    by (simp add: find_intro_candidates_def collect_candidates_def py_range_def ts rank_candidates_def)
qed

section \<open>The matrix builder\<close>

lemma overwrite_two_cells:
  fixes v0 v1 v2 :: real and S :: "nat \<Rightarrow> nat \<Rightarrow> real"
  assumes "v2 = (if x = j \<and> y = i then S i j else v1)"
    and "v1 = (if x = i \<and> y = j then S i j else v0)"
  shows "v2 = (if (x = i \<and> y = j) \<or> (x = j \<and> y = i) then S i j else v0)"
  using assms by (cases "x = i"; cases "y = j"; cases "x = j"; cases "y = i") simp_all

lemma overwrite_row_step:
  fixes v0 v1 v2 :: real and S :: "nat \<Rightarrow> nat \<Rightarrow> real"
  assumes "v2 = (if (x = i \<and> y \<in> set js) \<or> (y = i \<and> x \<in> set js)
                 then (if x = i then S i y else S i x) else v1)"
    and "v1 = (if (x = i \<and> y = j) \<or> (x = j \<and> y = i) then S i j else v0)"
  shows "v2 = (if (x = i \<and> y \<in> set (j # js)) \<or> (y = i \<and> x \<in> set (j # js))
               then (if x = i then S i y else S i x) else v0)"
  using assms by (cases "x = i"; cases "y = i"; cases "x = j"; cases "y = j") auto

lemma overwrite_rows_step:
  fixes v0 v1 v2 :: real and S :: "nat \<Rightarrow> nat \<Rightarrow> real"
  assumes "v2 = (if (x \<in> set is \<and> x \<le> y) \<or> (y \<in> set is \<and> y \<le> x)
                 then S (min x y) (max x y) else v1)"
    and "v1 = (if (x = i \<and> i \<le> y) \<or> (y = i \<and> i \<le> x)
               then (if x = i then S i y else S i x) else v0)"
  shows "v2 = (if (x \<in> set (i # is) \<and> x \<le> y) \<or> (y \<in> set (i # is) \<and> y \<le> x)
               then S (min x y) (max x y) else v0)"
  using assms by (cases "x = i"; cases "y = i"; cases "x \<le> y") (auto simp: min_def max_def)

lemma np_sum_le: "np_sum bs \<le> length bs"
  by (simp add: np_sum_def)

lemma np_sum_diff_self: "np_sum (map (\<lambda>(a, b). a \<noteq> b) (zip fp fp)) = 0"
  by (induction fp) (simp_all add: np_sum_def)

lemma similarity_equal_length:
  assumes "length fp1 = length fp2" and "0 < length fp1"
  shows "similarity fp1 fp2 =
           Inr (1 - real (np_sum (map (\<lambda>(a, b). a \<noteq> b) (zip fp1 fp2))) / real (length fp1))"
  using assms by (simp add: similarity_def np_not_equal_def)

lemma similarity_bounds:
  assumes "length fp1 = length fp2" and "0 < length fp1" and "similarity fp1 fp2 = Inr s"
  shows "0 \<le> s \<and> s \<le> 1"
proof -
  let ?d = "np_sum (map (\<lambda>(a, b). a \<noteq> b) (zip fp1 fp2))"
  have s: "s = 1 - real ?d / real (length fp1)"
    using similarity_equal_length [OF assms(1,2)] assms(3) by simp
  have "?d \<le> length fp1"
    using np_sum_le [of "map (\<lambda>(a, b). a \<noteq> b) (zip fp1 fp2)"] assms(1) by simp
  then have "real ?d / real (length fp1) \<le> 1"
    using assms(2) by (simp add: divide_le_eq_1)
  moreover have "0 \<le> real ?d / real (length fp1)" by simp
  ultimately show ?thesis using s by linarith
qed

lemma similarity_self:
  assumes "0 < length fp"
  shows "similarity fp fp = Inr 1"
proof -
  have "similarity fp fp =
          Inr (1 - real (np_sum (map (\<lambda>(a, b). a \<noteq> b) (zip fp fp))) / real (length fp))"
    using similarity_equal_length [OF refl assms] .
  then show ?thesis unfolding np_sum_diff_self by simp
qed

lemma mat_set_square:
  assumes "square m n" and "a < n" and "b < n"
  shows "\<exists>m'. mat_set m a b v = Inr m' \<and> square m' n \<and>
           (\<forall>x < n. \<forall>y < n. m' ! x ! y = (if x = a \<and> y = b then v else m ! x ! y))"
proof -
  have la: "a < length m" and lr: "length (m ! a) = n"
    using assms by (simp_all add: square_def)
  let ?m' = "m[a := (m ! a)[b := v]]"
  have "mat_set m a b v = Inr ?m'"
    using la lr assms(3) by (simp add: mat_set_def)
  moreover have "square ?m' n"
  proof -
    have "length row = n" if "row \<in> set ?m'" for row
    proof -
      have "row \<in> insert ((m ! a)[b := v]) (set m)"
        using that set_update_subset_insert by fast
      then show ?thesis using assms(1) lr by (auto simp: square_def)
    qed
    then show ?thesis using assms(1) by (simp add: square_def)
  qed
  moreover have "\<forall>x < n. \<forall>y < n. ?m' ! x ! y = (if x = a \<and> y = b then v else m ! x ! y)"
    using la lr assms(1) by (auto simp: square_def nth_list_update)
  ultimately show ?thesis by blast
qed

lemma fill_cell_square:
  assumes "sim_at fps ts n S" and "square m n" and "i < n" and "j < n"
  shows "\<exists>m'. fill_cell fps ts i j m = Inr m' \<and> square m' n \<and>
           (\<forall>x < n. \<forall>y < n.
              m' ! x ! y = (if (x = i \<and> y = j) \<or> (x = j \<and> y = i) then S i j else m ! x ! y))"
proof -
  obtain f1 f2 where f: "dict_get fps (ts ! i) = Inr f1" "dict_get fps (ts ! j) = Inr f2"
    "similarity f1 f2 = Inr (S i j)"
    using assms(1,3,4) unfolding sim_at_def by blast
  obtain m1 where m1: "mat_set m i j (S i j) = Inr m1" "square m1 n"
    "\<forall>x < n. \<forall>y < n. m1 ! x ! y = (if x = i \<and> y = j then S i j else m ! x ! y)"
    using mat_set_square [OF assms(2,3,4)] by blast
  obtain m2 where m2: "mat_set m1 j i (S i j) = Inr m2" "square m2 n"
    "\<forall>x < n. \<forall>y < n. m2 ! x ! y = (if x = j \<and> y = i then S i j else m1 ! x ! y)"
    using mat_set_square [OF m1(2) assms(4,3)] by blast
  have "fill_cell fps ts i j m = Inr m2"
    using f m1(1) m2(1) by (simp add: fill_cell_def)
  moreover have "\<forall>x < n. \<forall>y < n.
      m2 ! x ! y = (if (x = i \<and> y = j) \<or> (x = j \<and> y = i) then S i j else m ! x ! y)"
  proof (intro allI impI)
    fix x y assume x: "x < n" and y: "y < n"
    have a: "m2 ! x ! y = (if x = j \<and> y = i then S i j else m1 ! x ! y)"
      using m2(3) x y by blast
    have b: "m1 ! x ! y = (if x = i \<and> y = j then S i j else m ! x ! y)"
      using m1(3) x y by blast
    show "m2 ! x ! y = (if (x = i \<and> y = j) \<or> (x = j \<and> y = i) then S i j else m ! x ! y)"
      using a b by (rule overwrite_two_cells)
  qed
  ultimately show ?thesis using m2(2) by blast
qed

lemma fill_row_square:
  assumes "sim_at fps ts n S" and "i < n"
  shows "square m n \<Longrightarrow> \<forall>j \<in> set js. j < n \<Longrightarrow>
         \<exists>m'. fill_row fps ts i js m = Inr m' \<and> square m' n \<and>
           (\<forall>x < n. \<forall>y < n.
              m' ! x ! y = (if (x = i \<and> y \<in> set js) \<or> (y = i \<and> x \<in> set js)
                            then (if x = i then S i y else S i x) else m ! x ! y))"
proof (induction js arbitrary: m)
  case Nil
  then show ?case by simp
next
  case (Cons j js)
  have j: "j < n" using Cons.prems(2) by simp
  obtain m1 where m1: "fill_cell fps ts i j m = Inr m1" "square m1 n"
    "\<forall>x < n. \<forall>y < n.
       m1 ! x ! y = (if (x = i \<and> y = j) \<or> (x = j \<and> y = i) then S i j else m ! x ! y)"
    using fill_cell_square [OF assms(1) Cons.prems(1) assms(2) j] by blast
  have "\<forall>j \<in> set js. j < n" using Cons.prems(2) by simp
  from Cons.IH [OF m1(2) this] obtain m2 where m2: "fill_row fps ts i js m1 = Inr m2"
    "square m2 n"
    "\<forall>x < n. \<forall>y < n.
       m2 ! x ! y = (if (x = i \<and> y \<in> set js) \<or> (y = i \<and> x \<in> set js)
                     then (if x = i then S i y else S i x) else m1 ! x ! y)"
    by blast
  have "fill_row fps ts i (j # js) m = Inr m2"
    using m1(1) m2(1) by simp
  moreover have "\<forall>x < n. \<forall>y < n.
       m2 ! x ! y = (if (x = i \<and> y \<in> set (j # js)) \<or> (y = i \<and> x \<in> set (j # js))
                     then (if x = i then S i y else S i x) else m ! x ! y)"
  proof (intro allI impI)
    fix x y assume x: "x < n" and y: "y < n"
    have a: "m2 ! x ! y = (if (x = i \<and> y \<in> set js) \<or> (y = i \<and> x \<in> set js)
                     then (if x = i then S i y else S i x) else m1 ! x ! y)"
      using m2(3) x y by blast
    have b: "m1 ! x ! y = (if (x = i \<and> y = j) \<or> (x = j \<and> y = i) then S i j else m ! x ! y)"
      using m1(3) x y by blast
    show "m2 ! x ! y = (if (x = i \<and> y \<in> set (j # js)) \<or> (y = i \<and> x \<in> set (j # js))
                     then (if x = i then S i y else S i x) else m ! x ! y)"
      using a b by (rule overwrite_row_step)
  qed
  ultimately show ?case using m2(2) by blast
qed

lemma fill_rows_square:
  assumes "sim_at fps ts n S"
  shows "square m n \<Longrightarrow> \<forall>i \<in> set is. i < n \<Longrightarrow>
         \<exists>m'. fill_rows fps ts n is m = Inr m' \<and> square m' n \<and>
           (\<forall>x < n. \<forall>y < n.
              m' ! x ! y = (if (x \<in> set is \<and> x \<le> y) \<or> (y \<in> set is \<and> y \<le> x)
                            then S (min x y) (max x y) else m ! x ! y))"
proof (induction "is" arbitrary: m)
  case Nil
  then show ?case by simp
next
  case (Cons i "is")
  have i: "i < n" using Cons.prems(2) by simp
  have "\<forall>j \<in> set [i..<n]. j < n" by simp
  from fill_row_square [OF assms i Cons.prems(1) this] obtain m1 where
    m1: "fill_row fps ts i [i..<n] m = Inr m1" "square m1 n"
    "\<forall>x < n. \<forall>y < n.
       m1 ! x ! y = (if (x = i \<and> y \<in> set [i..<n]) \<or> (y = i \<and> x \<in> set [i..<n])
                     then (if x = i then S i y else S i x) else m ! x ! y)"
    by blast
  have "\<forall>i \<in> set is. i < n" using Cons.prems(2) by simp
  from Cons.IH [OF m1(2) this] obtain m2 where m2: "fill_rows fps ts n is m1 = Inr m2"
    "square m2 n"
    "\<forall>x < n. \<forall>y < n.
       m2 ! x ! y = (if (x \<in> set is \<and> x \<le> y) \<or> (y \<in> set is \<and> y \<le> x)
                     then S (min x y) (max x y) else m1 ! x ! y)"
    by blast
  have "fill_rows fps ts n (i # is) m = Inr m2"
    using m1(1) m2(1) by simp
  moreover have "\<forall>x < n. \<forall>y < n.
       m2 ! x ! y = (if (x \<in> set (i # is) \<and> x \<le> y) \<or> (y \<in> set (i # is) \<and> y \<le> x)
                     then S (min x y) (max x y) else m ! x ! y)"
  proof (intro allI impI)
    fix x y assume x: "x < n" and y: "y < n"
    have a: "m2 ! x ! y = (if (x \<in> set is \<and> x \<le> y) \<or> (y \<in> set is \<and> y \<le> x)
                     then S (min x y) (max x y) else m1 ! x ! y)"
      using m2(3) x y by blast
    have b: "m1 ! x ! y = (if (x = i \<and> i \<le> y) \<or> (y = i \<and> i \<le> x)
                     then (if x = i then S i y else S i x) else m ! x ! y)"
      using m1(3) x y by simp
    show "m2 ! x ! y = (if (x \<in> set (i # is) \<and> x \<le> y) \<or> (y \<in> set (i # is) \<and> y \<le> x)
                     then S (min x y) (max x y) else m ! x ! y)"
      using a b by (rule overwrite_rows_step)
  qed
  ultimately show ?case using m2(2) by blast
qed

lemma square_zeros: "square (replicate n (replicate n 0)) n"
  by (simp add: square_def)

lemma dict_get_key:
  assumes "k \<in> set (map fst d)"
  shows "\<exists>v. dict_get d k = Inr v \<and> (k, v) \<in> set d"
proof -
  have "map_of d k \<noteq> None" using assms by (simp add: map_of_eq_None_iff)
  then obtain v where "map_of d k = Some v" by blast
  then show ?thesis by (auto simp: dict_get_def dest: map_of_SomeD)
qed

lemma sim_at_cell_similarity:
  assumes "\<forall>(t, fp) \<in> set fps. length fp = L" and "0 < L"
  shows "sim_at fps (sort (map fst fps)) (length fps) (cell_similarity fps (sort (map fst fps)))"
  unfolding sim_at_def
proof (intro allI impI)
  let ?ts = "sort (map fst fps)"
  fix i j assume i: "i < length fps" and j: "j < length fps"
  have "?ts ! i \<in> set (map fst fps)" and "?ts ! j \<in> set (map fst fps)"
    using i j by (metis length_map length_sort nth_mem set_sort)+
  then obtain f1 f2 where f: "dict_get fps (?ts ! i) = Inr f1" "(?ts ! i, f1) \<in> set fps"
    "dict_get fps (?ts ! j) = Inr f2" "(?ts ! j, f2) \<in> set fps"
    using dict_get_key by metis
  then have len: "length f1 = L" "length f2 = L" using assms(1) by auto
  then have "\<exists>s. similarity f1 f2 = Inr s"
    using similarity_equal_length [of f1 f2] assms(2) by simp
  then obtain s where s: "similarity f1 f2 = Inr s" by blast
  then have "cell_similarity fps ?ts i j = s"
    using f by (simp add: cell_similarity_def)
  then show "\<exists>f1 f2. dict_get fps (?ts ! i) = Inr f1 \<and> dict_get fps (?ts ! j) = Inr f2 \<and>
        similarity f1 f2 = Inr (cell_similarity fps ?ts i j)"
    using f s by blast
qed

lemma compute_similarity_matrix_cells:
  assumes "\<forall>(t, fp) \<in> set fps. length fp = L" and "0 < L"
  shows "\<exists>M. compute_similarity_matrix fps = Inr (M, sort (map fst fps)) \<and>
           square M (length fps) \<and>
           (\<forall>x < length fps. \<forall>y < length fps.
              M ! x ! y = cell_similarity fps (sort (map fst fps)) (min x y) (max x y))"
proof -
  let ?ts = "sort (map fst fps)" and ?n = "length fps"
  have "\<forall>i \<in> set [0..<?n]. i < ?n" by simp
  from fill_rows_square [OF sim_at_cell_similarity [OF assms] square_zeros this]
  obtain M where M: "fill_rows fps ?ts ?n [0..<?n] (replicate ?n (replicate ?n 0)) = Inr M"
    "square M ?n"
    "\<forall>x < ?n. \<forall>y < ?n.
       M ! x ! y = (if (x \<in> set [0..<?n] \<and> x \<le> y) \<or> (y \<in> set [0..<?n] \<and> y \<le> x)
                    then cell_similarity fps ?ts (min x y) (max x y)
                    else replicate ?n (replicate ?n 0) ! x ! y)"
    by blast
  have "compute_similarity_matrix fps = Inr (M, ?ts)"
    using M(1) by (simp add: compute_similarity_matrix_def Let_def)
  moreover have "\<forall>x < ?n. \<forall>y < ?n. M ! x ! y = cell_similarity fps ?ts (min x y) (max x y)"
  proof (intro allI impI)
    fix x y assume "x < ?n" and "y < ?n"
    moreover have "x \<le> y \<or> y \<le> x" by linarith
    ultimately show "M ! x ! y = cell_similarity fps ?ts (min x y) (max x y)"
      using M(3) by (simp del: replicate.simps)
  qed
  ultimately show ?thesis using M(2) by blast
qed

section \<open>Ranking and orchestration\<close>

lemma remove_overlapping_prefix: "\<exists>rest. remove_overlapping cs acc = acc @ rest"
proof (induction cs arbitrary: acc)
  case Nil
  then show ?case by simp
next
  case (Cons c cs)
  obtain r1 where r1: "remove_overlapping cs acc = acc @ r1"
    using Cons.IH by blast
  obtain r2 where r2: "remove_overlapping cs (acc @ [c]) = (acc @ [c]) @ r2"
    using Cons.IH by blast
  show ?case
  proof (cases "\<exists>fc \<in> set acc. overlaps c fc")
    case True
    then show ?thesis using r1 by simp
  next
    case False
    then show ?thesis using r2 by (cases "length (acc @ [c]) \<ge> 5") auto
  qed
qed

lemma hd_remove_overlapping:
  assumes "xs \<noteq> []"
  shows "remove_overlapping xs [] \<noteq> [] \<and> hd (remove_overlapping xs []) = hd xs"
proof -
  obtain c cs where xs: "xs = c # cs" using assms by (cases xs) auto
  obtain rest where "remove_overlapping cs [c] = [c] @ rest"
    using remove_overlapping_prefix by blast
  then have "remove_overlapping xs [] = c # rest"
    using xs by simp
  then show ?thesis using xs by simp
qed

lemma hd_sort_key_least:
  assumes "x \<in> set xs"
  shows "f (hd (sort_key f xs)) \<le> (f x :: real)"
proof -
  have ne: "sort_key f xs \<noteq> []" using assms by (metis empty_iff list.set(1) set_sort)
  then obtain y ys where s: "sort_key f xs = y # ys" by (cases "sort_key f xs") auto
  have "sorted (map f (y # ys))" using sorted_sort_key [of f xs] s by simp
  then have "\<forall>z \<in> set (y # ys). f y \<le> f z" by auto
  moreover have "x \<in> set (y # ys)" using assms s by (metis set_sort)
  ultimately show ?thesis using s by auto
qed

lemma best_candidate_top_ranked:
  assumes "find_intro_candidates cfg m ts = Inr out" and "collect_candidates cfg m ts = Inr cs"
    and "c \<in> set cs"
  shows "out \<noteq> [] \<and> similarity_score c \<le> similarity_score (hd out)"
proof -
  have out: "out = remove_overlapping (rank_candidates cs) []"
    using assms(1,2) by (simp add: find_intro_candidates_def)
  have ne: "rank_candidates cs \<noteq> []"
    using assms(3) by (metis empty_iff list.set(1) rank_candidates_def set_sort)
  have hd: "out \<noteq> [] \<and> hd out = hd (rank_candidates cs)"
    using hd_remove_overlapping [OF ne] out by simp
  have "- similarity_score (hd (rank_candidates cs)) \<le> - similarity_score c"
    unfolding rank_candidates_def
    using hd_sort_key_least [OF assms(3), of "\<lambda>x. - similarity_score x"] .
  then show ?thesis using hd by simp
qed

lemma detect_intro_success:
  assumes "VideoProcessor_init v = Inr vp"
    and "compute_similarity_matrix (extract_fingerprints vp) = Inr (M, ts)"
    and "find_intro_candidates cfg M ts = Inr cands"
  shows "detect_intro cfg v =
           (True, Inr (if cands = [] then NotFound
                       else Found (start_time (hd cands)) (end_time (hd cands))
                              (duration (hd cands)) (similarity_score (hd cands))))"
  using assms by (simp add: detect_intro_def Let_def hd_conv_nth)

lemma detect_intro_cases:
  "(\<exists>e. detect_intro cfg v = (False, Inl e)) \<or>
   (\<exists>vp M ts cands. VideoProcessor_init v = Inr vp \<and>
      compute_similarity_matrix (extract_fingerprints vp) = Inr (M, ts) \<and>
      find_intro_candidates cfg M ts = Inr cands)"
proof (cases "VideoProcessor_init v")
  case (Inl e)
  then show ?thesis by (simp add: detect_intro_def)
next
  case (Inr vp)
  show ?thesis
  proof (cases "compute_similarity_matrix (extract_fingerprints vp)")
    case (Inl e)
    then show ?thesis using Inr by (simp add: detect_intro_def Let_def)
  next
    case r2: (Inr p)
    obtain M ts where p: "p = (M, ts)" by (cases p) auto
    show ?thesis
    proof (cases "find_intro_candidates cfg M ts")
      case (Inl e)
      then show ?thesis using Inr r2 p by (simp add: detect_intro_def Let_def)
    next
      case r3: (Inr cands)
      then show ?thesis using Inr r2 p by blast
    qed
  qed
qed

section \<open>Evaluations and facts shared by the theorems below\<close>

lemma off_diagonal_belowD:
  assumes "off_diagonal_below m thr" and "square m n" and "a < n" and "b < n" and "a \<noteq> b"
  shows "m ! a ! b < thr"
proof -
  have "a < length m" and "b < length (m ! a)"
    using assms(2,3,4) by (simp_all add: square_def)
  then have a: "a \<in> set [0..<length m]" and b: "b \<in> set [0..<length (m ! a)]"
    by simp_all
  have "\<forall>x \<in> set [0..<length m]. \<forall>y \<in> set [0..<length (m ! x)]. x = y \<or> m ! x ! y < thr"
    using assms(1) unfolding off_diagonal_below_def list_all_iff .
  then have "a = b \<or> m ! a ! b < thr" using a b by blast
  then show ?thesis using assms(5) by simp
qed

lemma find_intro_candidates_sound:
  assumes "find_intro_candidates cfg m ts = Inr out" and "c \<in> set out"
  shows "\<exists>i j. in_scope cfg ts i j \<and> generated_from cfg m ts i j c"
proof -
  obtain cs where "collect_candidates cfg m ts = Inr cs" and "set out \<subseteq> set cs"
    using find_intro_candidates_subset [OF assms(1)] by blast
  then show ?thesis using collect_candidates_sound assms(2) by blast
qed

lemma repeat_example:
  "find_intro_candidates default_config repeat_matrix repeat_times =
     Inr [\<lparr>start_time = 0, end_time = 6, duration = 6, similarity_score = 1\<rparr>,
          \<lparr>start_time = 8, end_time = 10, duration = 2, similarity_score = 1\<rparr>]"
  by code_simp

section \<open>The claims\<close>

text \<open>
  Claim C1, as amended. The pairs that \<open>find_intro_candidates\<close> examines are exactly the
  index pairs \<open>(i, j)\<close> with \<open>0 \<le> i < n\<close>, \<open>i + int(min_intro_length) \<le> j < n\<close> and
  \<open>times[j] - times[i] \<le> max_intro_length\<close>: the bound on \<open>j\<close> is inclusive, and the
  minimum length in seconds is truncated and used as an index offset as it is, with no
  sampling rate involved. Whenever the function returns, every returned candidate was
  generated from such a pair, and every such pair was probed and what its probe
  generated is among the collected candidates.
\<close>

theorem pair_enumeration:
  assumes "find_intro_candidates cfg m ts = Inr out"
  shows "(\<forall>c \<in> set out. \<exists>i j. in_scope cfg ts i j \<and> generated_from cfg m ts i j c) \<and>
         (\<forall>i j. in_scope cfg ts i j \<longrightarrow>
            (\<exists>new cs. probe_pair cfg m ts i j = Inr new \<and>
               collect_candidates cfg m ts = Inr cs \<and> set new \<subseteq> set cs))"
proof -
  obtain cs where cs: "collect_candidates cfg m ts = Inr cs"
    using find_intro_candidates_subset [OF assms] by blast
  have "\<forall>c \<in> set out. \<exists>i j. in_scope cfg ts i j \<and> generated_from cfg m ts i j c"
    using find_intro_candidates_sound [OF assms] by blast
  moreover have "\<forall>i j. in_scope cfg ts i j \<longrightarrow>
            (\<exists>new cs. probe_pair cfg m ts i j = Inr new \<and>
               collect_candidates cfg m ts = Inr cs \<and> set new \<subseteq> set cs)"
    using collect_candidates_complete [OF cs] cs by blast
  ultimately show ?thesis by blast
qed

text \<open>The theorem at the eight-sample input with two repeated stretches.\<close>

theorem pair_enumeration_witness:
  "(\<exists>i j. in_scope default_config repeat_times i j \<and>
      generated_from default_config repeat_matrix repeat_times i j
        \<lparr>start_time = 8, end_time = 10, duration = 2, similarity_score = 1\<rparr>) \<and>
   (\<exists>new cs. probe_pair default_config repeat_matrix repeat_times 0 4 = Inr new \<and>
      collect_candidates default_config repeat_matrix repeat_times = Inr cs \<and>
      set new \<subseteq> set cs)"
proof -
  have s: "in_scope default_config repeat_times 0 4"
    by code_simp
  have c: "\<lparr>start_time = 8, end_time = 10, duration = 2, similarity_score = 1\<rparr>
          \<in> set [\<lparr>start_time = 0, end_time = 6, duration = 6, similarity_score = 1\<rparr>,
                 \<lparr>start_time = 8, end_time = 10, duration = 2, similarity_score = (1::real)\<rparr>]"
    by simp
  from pair_enumeration [OF repeat_example] s c show ?thesis by blast
qed

text \<open>
  Claim C1 as stated fails in both directions. With a minimum length of 0.5 seconds and
  three unrelated samples, the returned candidate is generated from the pair \<open>(0, 0)\<close>,
  which violates \<open>j > i + min_intro_length_samples\<close> whether the minimum length is
  converted at the sampling rate or truncated, and the three pairs with \<open>i < j\<close> generate
  nothing. With a minimum length of 4 seconds (two samples at 0.5 samples per second) the
  pair \<open>(0, 3)\<close> satisfies both conditions of the claim and its probe would generate a
  candidate, but the search collects nothing: the pair is never examined.
\<close>

theorem pair_enumeration_counterexample:
  "find_intro_candidates half_config identity_matrix [0, 2, 4] =
     Inr [\<lparr>start_time = 0, end_time = 4, duration = 4, similarity_score = 1\<rparr>] \<and>
   probe_pair half_config identity_matrix [0, 2, 4] 0 0 =
     Inr [\<lparr>start_time = 0, end_time = 4, duration = 4, similarity_score = 1\<rparr>] \<and>
   \<not> spec_pair_in_scope (min_intro_length half_config * sampling_rate) half_config [0, 2, 4] 0 0 \<and>
   \<not> spec_pair_in_scope (real_of_int (py_int (min_intro_length half_config))) half_config
        [0, 2, 4] 0 0 \<and>
   probe_pair half_config identity_matrix [0, 2, 4] 0 1 = Inr [] \<and>
   probe_pair half_config identity_matrix [0, 2, 4] 0 2 = Inr [] \<and>
   probe_pair half_config identity_matrix [0, 2, 4] 1 2 = Inr [] \<and>
   spec_pair_in_scope (min_intro_length four_config * sampling_rate) four_config
     shifted_times 0 3 \<and>
   probe_pair four_config shifted_matrix shifted_times 0 3 =
     Inr [\<lparr>start_time = 0, end_time = 4, duration = 4, similarity_score = 1\<rparr>] \<and>
   collect_candidates four_config shifted_matrix shifted_times = Inr []"
  by code_simp

text \<open>
  Claim C5. Whenever \<open>find_intro_candidates\<close> returns, no two entries of the returned
  list overlap, in the sense of the test of lines 78-79, and the list has at most five
  entries.
\<close>

theorem filtered_candidates_disjoint_and_capped:
  assumes "find_intro_candidates cfg m ts = Inr out"
  shows "pairwise_disjoint out \<and> length out \<le> 5"
proof -
  obtain cs where "out = remove_overlapping (rank_candidates cs) []"
    using find_intro_candidates_InrD [OF assms] by blast
  then show ?thesis
    using remove_overlapping_invariant [of "[]" "rank_candidates cs"] pairwise_disjoint_Nil
    by simp
qed

text \<open>
  At the eight-sample input four candidates are collected, two of them inside the
  first; the two that are returned do not overlap.
\<close>

theorem filtered_candidates_disjoint_and_capped_witness:
  "pairwise_disjoint [\<lparr>start_time = 0, end_time = 6, duration = 6, similarity_score = 1\<rparr>,
                      \<lparr>start_time = 8, end_time = 10, duration = 2, similarity_score = 1\<rparr>] \<and>
   length [\<lparr>start_time = 0, end_time = 6, duration = 6, similarity_score = 1\<rparr>,
           \<lparr>start_time = 8, end_time = 10, duration = (2::real), similarity_score = 1\<rparr>] \<le> 5"
  using filtered_candidates_disjoint_and_capped [OF repeat_example] .

text \<open>
  Claim C6. Every candidate that \<open>find_intro_candidates\<close> returns has a duration between
  the minimum and the maximum intro length, and the duration is
  \<open>times[i + end_offset] - times[i]\<close> for the start index \<open>i\<close> of the pair it was generated
  from and the \<open>end_offset\<close> that the extension loop returned for that pair.
\<close>

theorem candidate_duration_bounds:
  assumes "find_intro_candidates cfg m ts = Inr out" and "c \<in> set out"
  shows "min_intro_length cfg \<le> duration c \<and> duration c \<le> max_intro_length cfg \<and>
         (\<exists>i j end_offset ti te.
            in_scope cfg ts i j \<and>
            extend_match m (similarity_threshold cfg) i j
              (py_range 0 (min (py_int (max_intro_length cfg)) (int (length ts) - j))) 0
              = Inr end_offset \<and>
            py_index ts i = Inr ti \<and> py_index ts (i + end_offset) = Inr te \<and>
            start_time c = ti \<and> end_time c = te \<and> duration c = te - ti)"
proof -
  obtain i j where s: "in_scope cfg ts i j" and g: "generated_from cfg m ts i j c"
    using find_intro_candidates_sound [OF assms] by blast
  from generated_from_props(4) [OF g] obtain end_offset ti te where
    "extend_match m (similarity_threshold cfg) i j
       (py_range 0 (min (py_int (max_intro_length cfg)) (int (length ts) - j))) 0 = Inr end_offset"
    "py_index ts i = Inr ti" "py_index ts (i + end_offset) = Inr te"
    "start_time c = ti" "end_time c = te" "duration c = te - ti"
    by blast
  then show ?thesis
    using generated_from_props(2,3) [OF g] s by blast
qed

theorem candidate_duration_bounds_witness:
  "min_intro_length default_config
     \<le> duration \<lparr>start_time = 8, end_time = 10, duration = 2, similarity_score = 1\<rparr> \<and>
   duration \<lparr>start_time = 8, end_time = 10, duration = 2, similarity_score = 1\<rparr>
     \<le> max_intro_length default_config \<and>
   (\<exists>i j end_offset ti te.
      in_scope default_config repeat_times i j \<and>
      extend_match repeat_matrix (similarity_threshold default_config) i j
        (py_range 0 (min (py_int (max_intro_length default_config))
           (int (length repeat_times) - j))) 0
        = Inr end_offset \<and>
      py_index repeat_times i = Inr ti \<and> py_index repeat_times (i + end_offset) = Inr te \<and>
      start_time \<lparr>start_time = 8, end_time = 10, duration = 2, similarity_score = 1\<rparr> = ti \<and>
      end_time \<lparr>start_time = 8, end_time = 10, duration = 2, similarity_score = 1\<rparr> = te \<and>
      duration \<lparr>start_time = 8, end_time = 10, duration = 2, similarity_score = 1\<rparr> = te - ti)"
proof -
  have "\<lparr>start_time = 8, end_time = 10, duration = 2, similarity_score = 1\<rparr>
          \<in> set [\<lparr>start_time = 0, end_time = 6, duration = 6, similarity_score = 1\<rparr>,
                 \<lparr>start_time = 8, end_time = 10, duration = 2, similarity_score = (1::real)\<rparr>]"
    by simp
  from candidate_duration_bounds [OF repeat_example this] show ?thesis .
qed

text \<open>
  Claim C4, as amended. When the probe of a pair \<open>(i, j)\<close> has run and its mean exceeds
  the threshold, the extension loop walks \<open>k\<close> over
  \<open>range(min(int(max_intro_length), n - j))\<close>: the maximum intro length in seconds is
  truncated and used as the number of iterations as it is, with no sampling rate
  involved. There is a number \<open>p\<close> of cells read in a row, from \<open>k = 0\<close>, that are strictly
  above the threshold; the walk ended because \<open>p\<close> reached the bound or because the cell
  at \<open>k = p\<close> is not above the threshold, whatever the cells after it hold; and
  \<open>end_offset\<close> is \<open>p - 1\<close>, the last \<open>k\<close> that held, or its initial value 0 when already
  the first cell fails. The end time of the candidate, if one is appended, is read at
  \<open>i + end_offset\<close>.
\<close>

theorem extension_walk:
  assumes "probe_pair cfg m ts i j = Inr new"
    and "diagonal_cells m i j (py_range 0 (min 20 (int (length ts) - j))) = Inr cells"
    and "similarity_threshold cfg < np_mean cells"
  shows "\<exists>end_offset p.
           extend_match m (similarity_threshold cfg) i j
             (py_range 0 (min (py_int (max_intro_length cfg)) (int (length ts) - j))) 0
             = Inr end_offset \<and>
           0 \<le> p \<and> p \<le> max 0 (min (py_int (max_intro_length cfg)) (int (length ts) - j)) \<and>
           (\<forall>k. 0 \<le> k \<and> k < p \<longrightarrow>
              (\<exists>v. mat_get m (i + k) (j + k) = Inr v \<and> similarity_threshold cfg < v)) \<and>
           (p < min (py_int (max_intro_length cfg)) (int (length ts) - j) \<longrightarrow>
              (\<exists>v. mat_get m (i + p) (j + p) = Inr v \<and> \<not> similarity_threshold cfg < v)) \<and>
           end_offset = (if p = 0 then 0 else p - 1) \<and>
           (\<forall>c \<in> set new. py_index ts (i + end_offset) = Inr (end_time c))"
proof -
  let ?B = "min (py_int (max_intro_length cfg)) (int (length ts) - j)"
  obtain end_offset where e:
    "extend_match m (similarity_threshold cfg) i j (py_range 0 ?B) 0 = Inr end_offset"
    using assms by (auto simp: probe_pair_def Let_def split: sum.splits)
  have t: "\<forall>c \<in> set new. py_index ts (i + end_offset) = Inr (end_time c)"
    using assms e by (auto simp: probe_pair_def Let_def split: sum.splits if_splits)
  from extend_match_run [OF e] obtain p where
    "0 \<le> p" "p \<le> max 0 ?B"
    "\<forall>k. 0 \<le> k \<and> k < p \<longrightarrow>
       (\<exists>v. mat_get m (i + k) (j + k) = Inr v \<and> similarity_threshold cfg < v)"
    "p < ?B \<longrightarrow> (\<exists>v. mat_get m (i + p) (j + p) = Inr v \<and> \<not> similarity_threshold cfg < v)"
    "end_offset = (if p = 0 then 0 else p - 1)"
    by blast
  then show ?thesis using e t by blast
qed

lemma gap_example_probe:
  "probe_pair default_config gap_matrix repeat_times 0 3 =
     Inr [\<lparr>start_time = 0, end_time = 2, duration = 2, similarity_score = 47 / 50\<rparr>]"
  by code_simp

lemma gap_example_cells:
  "diagonal_cells gap_matrix 0 3 (py_range 0 (min 20 (int (length repeat_times) - 3))) =
     Inr [1, 1, 7 / 10, 1, 1]"
  by code_simp

lemma gap_example_mean: "similarity_threshold default_config < np_mean [1, 1, 7 / 10, 1, 1]"
  by code_simp

text \<open>
  The run of the pair \<open>(0, 3)\<close> has a weak third cell: the mean of the probe is 0.94,
  and the theorem gives an \<open>end_offset\<close> for it.
\<close>

theorem extension_walk_witness:
  "\<exists>end_offset p.
     extend_match gap_matrix (similarity_threshold default_config) 0 3
       (py_range 0 (min (py_int (max_intro_length default_config))
          (int (length repeat_times) - 3))) 0
       = Inr end_offset \<and>
     0 \<le> p \<and>
     p \<le> max 0 (min (py_int (max_intro_length default_config)) (int (length repeat_times) - 3)) \<and>
     (\<forall>k. 0 \<le> k \<and> k < p \<longrightarrow>
        (\<exists>v. mat_get gap_matrix (0 + k) (3 + k) = Inr v \<and>
             similarity_threshold default_config < v)) \<and>
     (p < min (py_int (max_intro_length default_config)) (int (length repeat_times) - 3) \<longrightarrow>
        (\<exists>v. mat_get gap_matrix (0 + p) (3 + p) = Inr v \<and>
             \<not> similarity_threshold default_config < v)) \<and>
     end_offset = (if p = 0 then 0 else p - 1) \<and>
     (\<forall>c \<in> set [\<lparr>start_time = 0, end_time = 2, duration = 2, similarity_score = 47 / 50\<rparr>].
        py_index repeat_times (0 + end_offset) = Inr (end_time c))"
  using extension_walk [OF gap_example_probe gap_example_cells gap_example_mean] .

text \<open>
  Claim C4 as stated fails in two ways. On forty samples that are all alike, under the
  default configuration, the walk of the pair \<open>(0, 2)\<close> reaches \<open>end_offset = 29\<close>: it is
  bounded by \<open>int(30) = 30\<close> iterations, not by the 15 samples that 30 seconds are at 0.5
  samples per second, and the resulting duration of 58 seconds is rejected. And when the
  first cell of a run is below the threshold while the mean of the probe is above it,
  \<open>end_offset\<close> is 0 although the cell at \<open>k = 0\<close> did not hold; with a minimum length of
  zero the candidate of duration zero is appended.
\<close>

theorem extension_walk_counterexample:
  "in_scope default_config long_times 0 2 \<and>
   extend_match ones_matrix (similarity_threshold default_config) 0 2
     (py_range 0 (min (py_int (max_intro_length default_config))
        (int (length long_times) - 2))) 0 = Inr 29 \<and>
   \<not> real_of_int 29
       < spec_walk_bound (max_intro_length default_config * sampling_rate)
           (int (length long_times)) 2 \<and>
   probe_pair default_config ones_matrix long_times 0 2 = Inr [] \<and>
   diagonal_cells weak_start_matrix 0 3
     (py_range 0 (min 20 (int (length repeat_times) - 3))) = Inr [7 / 10, 1, 1, 1, 1] \<and>
   similarity_threshold zero_config < np_mean [7 / 10, 1, 1, 1, 1] \<and>
   mat_get weak_start_matrix 0 3 = Inr (7 / 10) \<and>
   \<not> similarity_threshold zero_config < 7 / 10 \<and>
   extend_match weak_start_matrix (similarity_threshold zero_config) 0 3
     (py_range 0 (min (py_int (max_intro_length zero_config))
        (int (length repeat_times) - 3))) 0 = Inr 0 \<and>
   probe_pair zero_config weak_start_matrix repeat_times 0 3 =
     Inr [\<lparr>start_time = 0, end_time = 0, duration = 0, similarity_score = 47 / 50\<rparr>]"
  by code_simp

text \<open>
  Claim C10. Every candidate that \<open>find_intro_candidates\<close> returns has a score strictly
  above the similarity threshold, and so the confidence of every found-result of
  \<open>detect_intro\<close> is strictly above the threshold.
\<close>

theorem score_above_threshold:
  "(find_intro_candidates cfg m ts = Inr out \<longrightarrow>
      (\<forall>c \<in> set out. similarity_threshold cfg < similarity_score c)) \<and>
   (snd (detect_intro cfg v) = Inr r \<and> r \<noteq> NotFound \<longrightarrow>
      similarity_threshold cfg < confidence r)"
proof (intro conjI impI)
  assume "find_intro_candidates cfg m ts = Inr out"
  then show "\<forall>c \<in> set out. similarity_threshold cfg < similarity_score c"
    using find_intro_candidates_sound generated_from_props(1) by blast
next
  assume a: "snd (detect_intro cfg v) = Inr r \<and> r \<noteq> NotFound"
  from detect_intro_cases [of cfg v] show "similarity_threshold cfg < confidence r"
  proof
    assume "\<exists>e. detect_intro cfg v = (False, Inl e)"
    then show ?thesis using a by auto
  next
    assume "\<exists>vp M ts cands. VideoProcessor_init v = Inr vp \<and>
      compute_similarity_matrix (extract_fingerprints vp) = Inr (M, ts) \<and>
      find_intro_candidates cfg M ts = Inr cands"
    then obtain vp M ts' cands where h: "VideoProcessor_init v = Inr vp"
      "compute_similarity_matrix (extract_fingerprints vp) = Inr (M, ts')"
      "find_intro_candidates cfg M ts' = Inr cands"
      by blast
    have r: "r = (if cands = [] then NotFound
                  else Found (start_time (hd cands)) (end_time (hd cands))
                         (duration (hd cands)) (similarity_score (hd cands)))"
      using detect_intro_success [OF h] a by simp
    then have ne: "cands \<noteq> []" using a by auto
    then have "hd cands \<in> set cands" by simp
    then have "similarity_threshold cfg < similarity_score (hd cands)"
      using find_intro_candidates_sound [OF h(3)] generated_from_props(1) by blast
    then show ?thesis using r ne by simp
  qed
qed

lemma repeat_video_example:
  "detect_intro default_config repeat_video = (True, Inr (Found 0 6 6 1))"
  by code_simp

theorem score_above_threshold_witness:
  "similarity_threshold default_config
     < similarity_score \<lparr>start_time = 8, end_time = 10, duration = 2, similarity_score = 1\<rparr> \<and>
   similarity_threshold default_config < confidence (Found 0 6 6 1)"
proof -
  have d: "snd (detect_intro default_config repeat_video) = Inr (Found 0 6 6 1) \<and>
        Found 0 6 6 1 \<noteq> NotFound"
    using repeat_video_example by simp
  have c: "\<lparr>start_time = 8, end_time = 10, duration = 2, similarity_score = 1\<rparr>
          \<in> set [\<lparr>start_time = 0, end_time = 6, duration = 6, similarity_score = 1\<rparr>,
                 \<lparr>start_time = 8, end_time = 10, duration = 2, similarity_score = (1::real)\<rparr>]"
    by simp
  from score_above_threshold [of default_config repeat_matrix repeat_times
      "[\<lparr>start_time = 0, end_time = 6, duration = 6, similarity_score = 1\<rparr>,
        \<lparr>start_time = 8, end_time = 10, duration = 2, similarity_score = 1\<rparr>]"
      repeat_video "Found 0 6 6 1"] repeat_example d c
  show ?thesis by blast
qed

text \<open>
  Claim C7. For a dictionary of fingerprints that all have the same non-zero length,
  \<open>compute_similarity_matrix\<close> returns, with the sorted timestamps, an \<open>n \<times> n\<close> matrix
  that is symmetric, has every entry in \<open>[0, 1]\<close> and every diagonal entry equal to 1,
  and has 1 in every cell whose two timestamps carry the same fingerprint; the
  similarity of a fingerprint with itself is 1.
\<close>

theorem similarity_matrix_properties:
  assumes "\<forall>(t, fp) \<in> set fingerprints. length fp = L" and "0 < L"
  shows "\<exists>M. compute_similarity_matrix fingerprints = Inr (M, sort (map fst fingerprints)) \<and>
           square M (length fingerprints) \<and>
           (\<forall>i < length fingerprints. \<forall>j < length fingerprints.
              M ! i ! j = M ! j ! i \<and> 0 \<le> M ! i ! j \<and> M ! i ! j \<le> 1) \<and>
           (\<forall>i < length fingerprints. M ! i ! i = 1) \<and>
           (\<forall>i < length fingerprints. \<forall>j < length fingerprints.
              dict_get fingerprints (sort (map fst fingerprints) ! i)
                = dict_get fingerprints (sort (map fst fingerprints) ! j) \<longrightarrow>
              M ! i ! j = 1) \<and>
           (\<forall>fp. length fp = L \<longrightarrow> similarity fp fp = Inr 1)"
proof -
  let ?ts = "sort (map fst fingerprints)" and ?n = "length fingerprints"
  obtain M where M: "compute_similarity_matrix fingerprints = Inr (M, ?ts)" "square M ?n"
    "\<forall>x < ?n. \<forall>y < ?n. M ! x ! y = cell_similarity fingerprints ?ts (min x y) (max x y)"
    using compute_similarity_matrix_cells [OF assms] by blast
  have sim: "sim_at fingerprints ?ts ?n (cell_similarity fingerprints ?ts)"
    using sim_at_cell_similarity [OF assms] .
  have cell: "\<exists>f1 f2. dict_get fingerprints (?ts ! i) = Inr f1 \<and>
                dict_get fingerprints (?ts ! j) = Inr f2 \<and> length f1 = L \<and> length f2 = L \<and>
                similarity f1 f2 = Inr (cell_similarity fingerprints ?ts i j)"
    if i: "i < ?n" and j: "j < ?n" for i j
  proof -
    have "\<exists>f1 f2. dict_get fingerprints (?ts ! i) = Inr f1 \<and>
            dict_get fingerprints (?ts ! j) = Inr f2 \<and>
            similarity f1 f2 = Inr (cell_similarity fingerprints ?ts i j)"
      using sim i j unfolding sim_at_def by blast
    then obtain f1 f2 where f: "dict_get fingerprints (?ts ! i) = Inr f1"
      "dict_get fingerprints (?ts ! j) = Inr f2"
      "similarity f1 f2 = Inr (cell_similarity fingerprints ?ts i j)"
      by blast
    have "(?ts ! i, f1) \<in> set fingerprints" and "(?ts ! j, f2) \<in> set fingerprints"
      using f(1,2) by (auto simp: dict_get_def split: option.splits dest: map_of_SomeD)
    then have "length f1 = L" and "length f2 = L" using assms(1) by auto
    then show ?thesis using f by blast
  qed
  have bounds: "0 \<le> cell_similarity fingerprints ?ts i j \<and>
                cell_similarity fingerprints ?ts i j \<le> 1"
    if i: "i < ?n" and j: "j < ?n" for i j
  proof -
    obtain f1 f2 where "length f1 = L" "length f2 = L"
      "similarity f1 f2 = Inr (cell_similarity fingerprints ?ts i j)"
      using cell [OF i j] by blast
    then show ?thesis using similarity_bounds [of f1 f2] assms(2) by simp
  qed
  have same: "cell_similarity fingerprints ?ts i j = 1"
    if i: "i < ?n" and j: "j < ?n"
      and eq: "dict_get fingerprints (?ts ! i) = dict_get fingerprints (?ts ! j)" for i j
  proof -
    obtain f1 f2 where f: "dict_get fingerprints (?ts ! i) = Inr f1"
      "dict_get fingerprints (?ts ! j) = Inr f2" "length f1 = L"
      "similarity f1 f2 = Inr (cell_similarity fingerprints ?ts i j)"
      using cell [OF i j] by blast
    then have "f1 = f2" using eq by simp
    then show ?thesis using f(3,4) similarity_self [of f1] assms(2) by simp
  qed
  have a: "\<forall>i < ?n. \<forall>j < ?n. M ! i ! j = M ! j ! i \<and> 0 \<le> M ! i ! j \<and> M ! i ! j \<le> 1"
  proof (intro allI impI)
    fix i j assume i: "i < ?n" and j: "j < ?n"
    have "M ! i ! j = cell_similarity fingerprints ?ts (min i j) (max i j)"
      and "M ! j ! i = cell_similarity fingerprints ?ts (min i j) (max i j)"
      using M(3) i j by (simp_all add: min.commute max.commute)
    moreover have "min i j < ?n" and "max i j < ?n" using i j by simp_all
    ultimately show "M ! i ! j = M ! j ! i \<and> 0 \<le> M ! i ! j \<and> M ! i ! j \<le> 1"
      using bounds by simp
  qed
  have b: "\<forall>i < ?n. M ! i ! i = 1"
  proof (intro allI impI)
    fix i assume i: "i < ?n"
    then have "M ! i ! i = cell_similarity fingerprints ?ts i i" using M(3) by simp
    then show "M ! i ! i = 1" using same [OF i i] by simp
  qed
  have c: "\<forall>i < ?n. \<forall>j < ?n.
              dict_get fingerprints (?ts ! i) = dict_get fingerprints (?ts ! j) \<longrightarrow> M ! i ! j = 1"
  proof (intro allI impI)
    fix i j assume i: "i < ?n" and j: "j < ?n"
      and eq: "dict_get fingerprints (?ts ! i) = dict_get fingerprints (?ts ! j)"
    have m: "M ! i ! j = cell_similarity fingerprints ?ts (min i j) (max i j)"
      using M(3) i j by simp
    have "min i j < ?n" and "max i j < ?n" using i j by simp_all
    moreover have "dict_get fingerprints (?ts ! min i j) = dict_get fingerprints (?ts ! max i j)"
      using eq by (cases "i \<le> j") (simp_all add: min_def max_def)
    ultimately show "M ! i ! j = 1" using same m by simp
  qed
  have d: "\<forall>fp. length fp = L \<longrightarrow> similarity fp fp = Inr 1"
  proof (intro allI impI)
    fix fp :: fingerprint assume "length fp = L"
    then have "0 < length fp" using assms(2) by simp
    then show "similarity fp fp = Inr 1" by (rule similarity_self)
  qed
  show ?thesis using M(1,2) a b c d by blast
qed

text \<open>Three two-bit fingerprints, the first and the last equal.\<close>

theorem similarity_matrix_properties_witness:
  "\<exists>M. compute_similarity_matrix [(0, [True, False]), (2, [True, True]), (4, [True, False])]
          = Inr (M, sort (map fst [(0, [True, False]), (2, [True, True]), (4, [True, False])])) \<and>
        square M (length [(0::real, [True, False]), (2, [True, True]), (4, [True, False])]) \<and>
        M ! 0 ! 2 = 1 \<and> M ! 1 ! 1 = 1 \<and> M ! 0 ! 1 = M ! 1 ! 0 \<and> M ! 0 ! 1 \<le> 1"
proof -
  let ?fps = "[(0::real, [True, False]), (2, [True, True]), (4, [True, False])]"
  have h1: "\<forall>(t, fp) \<in> set ?fps. length fp = 2" by simp
  have h2: "0 < (2::nat)" by simp
  have eq: "dict_get ?fps (sort (map fst ?fps) ! 0) = dict_get ?fps (sort (map fst ?fps) ! 2)"
    by (simp add: dict_get_def)
  from similarity_matrix_properties [OF h1 h2] obtain M where
    M: "compute_similarity_matrix ?fps = Inr (M, sort (map fst ?fps))"
    "square M (length ?fps)"
    "\<forall>i < length ?fps. \<forall>j < length ?fps.
       M ! i ! j = M ! j ! i \<and> 0 \<le> M ! i ! j \<and> M ! i ! j \<le> 1"
    "\<forall>i < length ?fps. M ! i ! i = 1"
    "\<forall>i < length ?fps. \<forall>j < length ?fps.
       dict_get ?fps (sort (map fst ?fps) ! i) = dict_get ?fps (sort (map fst ?fps) ! j) \<longrightarrow>
       M ! i ! j = 1"
    by blast
  have "M ! 0 ! 2 = 1" using M(5) eq by simp
  moreover have "M ! 1 ! 1 = 1" using M(4) by simp
  moreover have "M ! 0 ! 1 = M ! 1 ! 0 \<and> M ! 0 ! 1 \<le> 1" using M(3) by simp
  ultimately show ?thesis using M(1,2) by blast
qed

lemma distinct_video_init:
  "VideoProcessor_init distinct_video =
     Inr \<lparr>vp_video = distinct_video, vp_fps = 1, vp_frame_count = 6, vp_duration = 6\<rparr>"
  by (simp add: VideoProcessor_init_def distinct_video_def py_int_def)

lemma distinct_video_matrix:
  "compute_similarity_matrix (extract_fingerprints
       \<lparr>vp_video = distinct_video, vp_fps = 1, vp_frame_count = 6, vp_duration = 6\<rparr>) =
     Inr (distinct_matrix, [0, 2, 4])"
  by code_simp

lemma short_video_init:
  "VideoProcessor_init short_video =
     Inr \<lparr>vp_video = short_video, vp_fps = 1, vp_frame_count = 1, vp_duration = 1\<rparr>"
  by (simp add: VideoProcessor_init_def short_video_def py_int_def)

lemma short_video_fingerprints:
  "extract_fingerprints
       \<lparr>vp_video = short_video, vp_fps = 1, vp_frame_count = 1, vp_duration = 1\<rparr> =
     [(0, replicate 64 True)]"
  by code_simp

lemma repeat_video_init:
  "VideoProcessor_init repeat_video =
     Inr \<lparr>vp_video = repeat_video, vp_fps = 1, vp_frame_count = 16, vp_duration = 16\<rparr>"
  by (simp add: VideoProcessor_init_def repeat_video_def py_int_def)

lemma repeat_video_matrix_eq:
  "compute_similarity_matrix (extract_fingerprints
       \<lparr>vp_video = repeat_video, vp_fps = 1, vp_frame_count = 16, vp_duration = 16\<rparr>) =
     Inr (repeat_video_matrix, repeat_times)"
  by code_simp

lemma repeat_video_candidates:
  "find_intro_candidates default_config repeat_video_matrix repeat_times =
     Inr [\<lparr>start_time = 0, end_time = 6, duration = 6, similarity_score = 1\<rparr>]"
  by code_simp

text \<open>
  Claim C8, as amended. If the minimum intro length is at least one second, so that the
  search starts at \<open>j = i + int(min_intro_length) > i\<close> and never probes the main
  diagonal, and every off-diagonal entry of the \<open>n \<times> n\<close> similarity matrix is strictly
  below the threshold, then \<open>find_intro_candidates\<close> returns the empty list, and
  \<open>detect_intro\<close> of a video with that matrix releases the resource and returns
  not-found.
\<close>

theorem below_threshold_not_found:
  assumes "1 \<le> min_intro_length cfg" and "square m (length ts)"
    and "off_diagonal_below m (similarity_threshold cfg)"
  shows "find_intro_candidates cfg m ts = Inr [] \<and>
         (\<forall>v vp. VideoProcessor_init v = Inr vp \<and>
            compute_similarity_matrix (extract_fingerprints vp) = Inr (m, ts) \<longrightarrow>
            detect_intro cfg v = (True, Inr NotFound))"
proof -
  have "\<forall>a < length ts. \<forall>b < length ts. a \<noteq> b \<longrightarrow> m ! a ! b < similarity_threshold cfg"
    using off_diagonal_belowD [OF assms(3,2)] by blast
  then have f: "find_intro_candidates cfg m ts = Inr []"
    using find_intro_candidates_below_threshold [OF assms(1,2)] by blast
  have "detect_intro cfg v = (True, Inr NotFound)"
    if "VideoProcessor_init v = Inr vp \<and>
        compute_similarity_matrix (extract_fingerprints vp) = Inr (m, ts)" for v vp
    using detect_intro_success [of v vp m ts cfg "[]"] that f by simp
  then show ?thesis using f by blast
qed

text \<open>The default configuration on a six-second video with three different frames.\<close>

theorem below_threshold_not_found_witness:
  "find_intro_candidates default_config distinct_matrix [0, 2, 4] = Inr [] \<and>
   detect_intro default_config distinct_video = (True, Inr NotFound)"
proof -
  have h1: "1 \<le> min_intro_length default_config" by (simp add: default_config_def)
  have h2: "square distinct_matrix (length [0, 2, 4 :: real])"
    by (simp add: square_def distinct_matrix_def)
  have h3: "off_diagonal_below distinct_matrix (similarity_threshold default_config)"
    by code_simp
  from below_threshold_not_found [OF h1 h2 h3] distinct_video_init distinct_video_matrix
  show ?thesis by blast
qed

text \<open>
  Claim C8 as stated fails when the minimum intro length is below one second: the inner
  loop then starts at \<open>j = i\<close> and probes the main diagonal, whose entries are 1. Three
  unrelated samples, and the video with three different frames, whose matrices are below
  the threshold off the diagonal, give a candidate and a found-result.
\<close>

theorem below_threshold_counterexample:
  "off_diagonal_below identity_matrix (similarity_threshold half_config) \<and>
   find_intro_candidates half_config identity_matrix [0, 2, 4] =
     Inr [\<lparr>start_time = 0, end_time = 4, duration = 4, similarity_score = 1\<rparr>] \<and>
   compute_similarity_matrix (extract_fingerprints
       \<lparr>vp_video = distinct_video, vp_fps = 1, vp_frame_count = 6, vp_duration = 6\<rparr>) =
     Inr (distinct_matrix, [0, 2, 4]) \<and>
   off_diagonal_below distinct_matrix (similarity_threshold half_config) \<and>
   detect_intro half_config distinct_video = (True, Inr (Found 0 4 4 1))"
  by code_simp

text \<open>
  Claim C9, as amended. For a positive minimum intro length: on a timeline of at most
  one sample with its \<open>n \<times> n\<close> matrix \<open>find_intro_candidates\<close> returns the empty list,
  and \<open>detect_intro\<close> of a video that opens and yields at most one fingerprint (of
  non-zero length) raises nothing, releases the resource and returns not-found.
\<close>

theorem short_timeline_not_found:
  assumes "0 < min_intro_length cfg"
  shows "(length ts \<le> 1 \<and> square m (length ts) \<longrightarrow> find_intro_candidates cfg m ts = Inr []) \<and>
         (\<forall>vp. VideoProcessor_init v = Inr vp \<and> length (extract_fingerprints vp) \<le> 1 \<and>
            (\<forall>(t, fp) \<in> set (extract_fingerprints vp). fp \<noteq> []) \<longrightarrow>
            detect_intro cfg v = (True, Inr NotFound))"
proof (intro conjI impI allI)
  assume "length ts \<le> 1 \<and> square m (length ts)"
  then show "find_intro_candidates cfg m ts = Inr []"
    using find_intro_candidates_short_timeline assms by blast
next
  fix vp
  assume h: "VideoProcessor_init v = Inr vp \<and> length (extract_fingerprints vp) \<le> 1 \<and>
            (\<forall>(t, fp) \<in> set (extract_fingerprints vp). fp \<noteq> [])"
  let ?fps = "extract_fingerprints vp"
  obtain L where L: "\<forall>(t, fp) \<in> set ?fps. length fp = L" "0 < L"
  proof (cases ?fps)
    case Nil
    then have "\<forall>(t, fp) \<in> set ?fps. length fp = 1" by simp
    then show ?thesis using that [of 1] by simp
  next
    case (Cons p ps)
    then have ps: "ps = []" using h by simp
    obtain t fp where p: "p = (t, fp)" by (cases p) auto
    have "fp \<noteq> []" using h Cons p by auto
    moreover have "\<forall>(t, fp') \<in> set ?fps. length fp' = length fp"
      using Cons ps p by simp
    ultimately show ?thesis using that [of "length fp"] by simp
  qed
  obtain M where M: "compute_similarity_matrix ?fps = Inr (M, sort (map fst ?fps))"
    "square M (length ?fps)"
    using compute_similarity_matrix_cells [OF L] by blast
  have "length (sort (map fst ?fps)) \<le> 1" using h by simp
  moreover have "square M (length (sort (map fst ?fps)))" using M(2) by simp
  ultimately have "find_intro_candidates cfg M (sort (map fst ?fps)) = Inr []"
    using find_intro_candidates_short_timeline assms by blast
  then show "detect_intro cfg v = (True, Inr NotFound)"
    using detect_intro_success [of v vp M "sort (map fst ?fps)" cfg "[]"] h M(1) by simp
qed

text \<open>The default configuration on the one-second video.\<close>

theorem short_timeline_not_found_witness:
  "find_intro_candidates default_config [[1]] [0] = Inr [] \<and>
   detect_intro default_config short_video = (True, Inr NotFound)"
proof -
  have h: "0 < min_intro_length default_config" by (simp add: default_config_def)
  have a: "length [0 :: real] \<le> 1 \<and> square [[1]] (length [0 :: real])"
    by (simp add: square_def)
  have b: "VideoProcessor_init short_video =
             Inr \<lparr>vp_video = short_video, vp_fps = 1, vp_frame_count = 1, vp_duration = 1\<rparr> \<and>
           length (extract_fingerprints
             \<lparr>vp_video = short_video, vp_fps = 1, vp_frame_count = 1, vp_duration = 1\<rparr>) \<le> 1 \<and>
           (\<forall>(t, fp) \<in> set (extract_fingerprints
             \<lparr>vp_video = short_video, vp_fps = 1, vp_frame_count = 1, vp_duration = 1\<rparr>).
              fp \<noteq> [])"
    using short_video_init by (simp add: short_video_fingerprints)
  from short_timeline_not_found [OF h, of "[0]" "[[1]]" short_video] a b
  show ?thesis by blast
qed

text \<open>
  Claim C9 as stated fails for a minimum intro length of zero: the single sample is
  matched with itself, and a candidate of duration zero is returned and reported as
  found.
\<close>

theorem short_timeline_counterexample:
  "find_intro_candidates zero_config [[1]] [0] =
     Inr [\<lparr>start_time = 0, end_time = 0, duration = 0, similarity_score = 1\<rparr>] \<and>
   extract_fingerprints
       \<lparr>vp_video = short_video, vp_fps = 1, vp_frame_count = 1, vp_duration = 1\<rparr> =
     [(0, replicate 64 True)] \<and>
   detect_intro zero_config short_video = (True, Inr (Found 0 0 0 1))"
  by code_simp

text \<open>
  Claim C2, as amended. \<open>detect_intro\<close> has called \<open>release_resources\<close> exactly when it
  returns a result, and has not when it is left by an exception: a failure of the
  constructor, of the matrix computation or of the candidate search propagates with
  the resource unreleased. When the three steps succeed it returns not-found if no
  candidate survives, and otherwise the first returned candidate mapped to
  start time, end time, duration and confidence; that candidate has the highest score
  of all collected candidates.
\<close>

theorem detect_intro_release_and_result:
  "(fst (detect_intro cfg v) \<longleftrightarrow> (\<exists>r. snd (detect_intro cfg v) = Inr r)) \<and>
   (VideoProcessor_init v = Inr vp \<and>
    compute_similarity_matrix (extract_fingerprints vp) = Inr (M, ts) \<and>
    find_intro_candidates cfg M ts = Inr cands \<longrightarrow>
      detect_intro cfg v =
        (True, Inr (if cands = [] then NotFound
                    else Found (start_time (hd cands)) (end_time (hd cands))
                           (duration (hd cands)) (similarity_score (hd cands)))) \<and>
      (\<forall>cs c. collect_candidates cfg M ts = Inr cs \<and> c \<in> set cs \<longrightarrow>
         cands \<noteq> [] \<and> similarity_score c \<le> similarity_score (hd cands)))"
proof (intro conjI impI)
  from detect_intro_cases [of cfg v]
  show "fst (detect_intro cfg v) \<longleftrightarrow> (\<exists>r. snd (detect_intro cfg v) = Inr r)"
  proof
    assume "\<exists>e. detect_intro cfg v = (False, Inl e)"
    then show ?thesis by auto
  next
    assume "\<exists>vp M ts cands. VideoProcessor_init v = Inr vp \<and>
      compute_similarity_matrix (extract_fingerprints vp) = Inr (M, ts) \<and>
      find_intro_candidates cfg M ts = Inr cands"
    then obtain vp' M' ts' cands' where "VideoProcessor_init v = Inr vp'"
      "compute_similarity_matrix (extract_fingerprints vp') = Inr (M', ts')"
      "find_intro_candidates cfg M' ts' = Inr cands'"
      by blast
    from detect_intro_success [OF this] show ?thesis by simp
  qed
next
  assume h: "VideoProcessor_init v = Inr vp \<and>
    compute_similarity_matrix (extract_fingerprints vp) = Inr (M, ts) \<and>
    find_intro_candidates cfg M ts = Inr cands"
  then show "detect_intro cfg v =
        (True, Inr (if cands = [] then NotFound
                    else Found (start_time (hd cands)) (end_time (hd cands))
                           (duration (hd cands)) (similarity_score (hd cands))))"
    using detect_intro_success by blast
  show "\<forall>cs c. collect_candidates cfg M ts = Inr cs \<and> c \<in> set cs \<longrightarrow>
         cands \<noteq> [] \<and> similarity_score c \<le> similarity_score (hd cands)"
    using best_candidate_top_ranked h by blast
qed

text \<open>The sixteen-second video whose first four sampled frames come back.\<close>

theorem detect_intro_release_and_result_witness:
  "(fst (detect_intro default_config repeat_video) \<longleftrightarrow>
      (\<exists>r. snd (detect_intro default_config repeat_video) = Inr r)) \<and>
   detect_intro default_config repeat_video = (True, Inr (Found 0 6 6 1))"
proof -
  have h: "VideoProcessor_init repeat_video =
             Inr \<lparr>vp_video = repeat_video, vp_fps = 1, vp_frame_count = 16, vp_duration = 16\<rparr> \<and>
           compute_similarity_matrix (extract_fingerprints
             \<lparr>vp_video = repeat_video, vp_fps = 1, vp_frame_count = 16, vp_duration = 16\<rparr>) =
             Inr (repeat_video_matrix, repeat_times) \<and>
           find_intro_candidates default_config repeat_video_matrix repeat_times =
             Inr [\<lparr>start_time = 0, end_time = 6, duration = 6, similarity_score = 1\<rparr>]"
    using repeat_video_init repeat_video_matrix_eq repeat_video_candidates by simp
  from detect_intro_release_and_result [of default_config repeat_video
      "\<lparr>vp_video = repeat_video, vp_fps = 1, vp_frame_count = 16, vp_duration = 16\<rparr>"
      repeat_video_matrix repeat_times
      "[\<lparr>start_time = 0, end_time = 6, duration = 6, similarity_score = 1\<rparr>]"] h
  show ?thesis by simp
qed

text \<open>
  Claim C2 as stated fails on the exception paths. With a negative minimum intro length
  the candidate search of the one-second video raises IndexError, and a file that cannot
  be opened raises ZeroDivisionError in the constructor; in both cases \<open>detect_intro\<close> is
  left without \<open>release_resources\<close> having been called.
\<close>

theorem detect_intro_release_counterexample:
  "find_intro_candidates negative_config [[1]] [0] = Inl IndexError \<and>
   detect_intro negative_config short_video = (False, Inl IndexError) \<and>
   detect_intro default_config broken_video = (False, Inl ZeroDivisionError)"
  by code_simp

text \<open>
  Claim C3 is not met by \<open>batch_detect_intros\<close>. In a directory whose first file cannot
  be opened, the exception of that file leaves the loop: no mapping is returned and
  the second file, which alone gives not-found, is never processed. The loop of
  \<open>main\<close> in scripts/run_detector.py catches the exception and returns the entry of the
  second file.
\<close>

theorem batch_aborts_on_failure:
  "snd (detect_intro default_config broken_video) = Inl ZeroDivisionError \<and>
   snd (detect_intro default_config short_video) = Inr NotFound \<and>
   batch_detect_intros default_config
     [(''broken.mp4'', broken_video), (''short.mp4'', short_video)] = Inl ZeroDivisionError \<and>
   main_loop default_config
     [(''broken.mp4'', broken_video), (''short.mp4'', short_video)] [] =
     [(''short.mp4'', NotFound)]"
  by code_simp

end
